theory Spec2Isabelle
  imports Main "HOL-Library.AList"
begin

section \<open>Values exchanged with the engine and the store\<close>

text \<open>
  The gateway service of \<^verbatim>\<open>control/grpc.py\<close> talks to three collaborators that are
  not part of the file: the storage engine (SPDK, reached through \<^verbatim>\<open>rpc_bdev\<close>,
  \<^verbatim>\<open>rpc_nvmf\<close>), the persisted gateway state (\<^verbatim>\<open>GatewayState\<close>) and the JSON
  and protobuf libraries. Replies of the engine and parsed store values are dynamically
  typed Python values; they are modelled as JSON trees. JSON numbers are restricted to
  integers (floating point replies are outside the model).
\<close>

datatype json =
    JNull
  | JBool bool
  | JInt int
  | JStr string
  | JArr "json list"
  | JObj "(string \<times> json) list"

text \<open>Python truthiness, as tested by \<^verbatim>\<open>if x:\<close> and \<^verbatim>\<open>if not x:\<close>.\<close>

fun truthy :: "json \<Rightarrow> bool" where
  "truthy JNull = False"
| "truthy (JBool b) = b"
| "truthy (JInt n) = (n \<noteq> 0)"
| "truthy (JStr s) = (s \<noteq> [])"
| "truthy (JArr xs) = (xs \<noteq> [])"
| "truthy (JObj kvs) = (kvs \<noteq> [])"

text \<open>
  The exceptions that occur in the modelled code. \<open>JSONRPCException\<close> carries its
  \<^verbatim>\<open>message\<close>; \<open>OtherError\<close> stands for any other exception class an external call
  may raise.
\<close>

datatype exn =
    JSONRPCException string
  | KeyError
  | TypeError
  | ValueError
  | AttributeError
  | AssertionError
  | UnboundLocalError
  | NameError
  | OtherError string

text \<open>\<^verbatim>\<open>x[k]\<close> with a string key: only a dict holding the key answers.\<close>

fun subscript :: "json \<Rightarrow> string \<Rightarrow> exn + json" where
  "subscript (JObj kvs) k = (case map_of kvs k of None \<Rightarrow> Inl KeyError | Some v \<Rightarrow> Inr v)"
| "subscript _ k = Inl TypeError"

text \<open>\<^verbatim>\<open>for x in v\<close>: a list yields its elements, a dict its keys, a string its
  characters; other values are not iterable.\<close>

fun py_iter :: "json \<Rightarrow> exn + json list" where
  "py_iter (JArr xs) = Inr xs"
| "py_iter (JObj kvs) = Inr (map (\<lambda>kv. JStr (fst kv)) kvs)"
| "py_iter (JStr s) = Inr (map (\<lambda>c. JStr [c]) s)"
| "py_iter _ = Inl TypeError"

text \<open>\<^verbatim>\<open>n == v\<close> for an integer \<open>n\<close> (booleans are integers in Python) and
  \<^verbatim>\<open>s == v\<close> for a string \<open>s\<close>.\<close>

fun py_eq_int :: "int \<Rightarrow> json \<Rightarrow> bool" where
  "py_eq_int n (JInt m) = (n = m)"
| "py_eq_int n (JBool b) = (n = (if b then 1 else 0))"
| "py_eq_int n _ = False"

fun py_eq_str :: "string \<Rightarrow> json \<Rightarrow> bool" where
  "py_eq_str s (JStr t) = (s = t)"
| "py_eq_str s _ = False"

text \<open>\<^verbatim>\<open>s.find(sub)\<close>: the lowest index at which \<open>sub\<close> occurs, \<open>None\<close> for -1.\<close>

fun find_str :: "string \<Rightarrow> string \<Rightarrow> nat option" where
  "find_str [] sub = (if sub = [] then Some 0 else None)"
| "find_str (c # cs) sub =
     (if take (length sub) (c # cs) = sub then Some 0
      else map_option Suc (find_str cs sub))"

text \<open>Decimal rendering of a natural number, as an f-string prints \<^verbatim>\<open>len(...)\<close>.\<close>

definition digit_chars :: string where
  "digit_chars = ''0123456789''"

function show_nat :: "nat \<Rightarrow> string" where
  "show_nat n =
     (if n < 10 then [digit_chars ! n]
      else show_nat (n div 10) @ [digit_chars ! (n mod 10)])"
  by pat_completeness auto
termination
  by (relation "measure (\<lambda>n. n)") auto

declare show_nat.simps [simp del]

text \<open>The \<^verbatim>\<open>errno\<close> constants used by the service (Linux values).\<close>

definition ENOENT :: int where "ENOENT = 2"
definition EBUSY :: int where "EBUSY = 16"
definition EEXIST :: int where "EEXIST = 17"
definition ENODEV :: int where "ENODEV = 19"
definition EINVAL :: int where "EINVAL = 22"
definition ENOKEY :: int where "ENOKEY = 126"

definition MAX_ANA_GROUPS :: int where
  "MAX_ANA_GROUPS = 4"


section \<open>Requests, replies, engine calls\<close>

text \<open>
  The request messages (\<^verbatim>\<open>pb2\<close>) are records. Messages that share field names share
  a base record, so that every field keeps the name it has in the source. Optional
  protobuf fields (tested with \<^verbatim>\<open>HasField\<close>) are options.
\<close>

record subsystem_ref =
  subsystem_nqn :: string

record create_subsystem_req = subsystem_ref +
  serial_number :: string
  max_namespaces :: int
  ana_reporting :: bool
  enable_ha :: bool

record delete_subsystem_req = subsystem_ref +
  force :: bool

record remove_host_req = subsystem_ref +
  host_nqn :: string

record namespace_ref = subsystem_ref +
  nsid :: int
  uuid :: string

record namespace_resize_req = namespace_ref +
  new_size :: int

record namespace_set_qos_req = namespace_ref +
  rw_ios_per_second :: "int option"
  rw_mbytes_per_second :: "int option"
  r_mbytes_per_second :: "int option"
  w_mbytes_per_second :: "int option"

record namespace_change_load_balancing_group_req = namespace_ref +
  anagrpid :: int

record namespace_add_req = namespace_change_load_balancing_group_req +
  rbd_pool_name :: string
  rbd_image_name :: string
  block_size :: int

record delete_listener_req =
  nqn :: string
  gateway_name :: string
  trtype :: int
  adrfam :: int
  traddr :: string
  trsvcid :: int

record create_listener_req = delete_listener_req +
  auto_ha_state :: int

text \<open>
  The replies. Only the status and the payload are modelled; the error message text is
  left out, except where building it can raise (\<^verbatim>\<open>resp['message']\<close>).
\<close>

datatype reply =
    req_status int
  | nsid_status int int
  | bdev_status int string
  | namespace_io_stats_info int "json list"

fun status :: "reply \<Rightarrow> int" where
  "status (req_status st) = st"
| "status (nsid_status st n) = st"
| "status (bdev_status st b) = st"
| "status (namespace_io_stats_info st xs) = st"

text \<open>
  The calls made on the engine's RPC client, with the arguments the service passes.
  Arguments taken from an engine reply are JSON values.
\<close>

datatype rpc_call =
    bdev_rbd_register_cluster string "string option" "string option"
  | bdev_rbd_create string string string string int string
  | bdev_rbd_resize json int
  | bdev_rbd_delete json
  | bdev_get_iostat json
  | bdev_set_qos_limit json "int option" "int option" "int option" "int option"
  | nvmf_create_subsystem string string int int int bool
  | nvmf_delete_subsystem string
  | nvmf_subsystem_add_ns string json json int json
  | nvmf_subsystem_remove_ns string json
  | nvmf_get_subsystems string
  | nvmf_subsystem_allow_any_host string bool
  | nvmf_subsystem_remove_host string string
  | nvmf_subsystem_add_listener string string string int string
  | nvmf_subsystem_remove_listener string string string int string
  | nvmf_subsystem_listener_set_ana_state string string string string int string int

datatype rpc_result = Raises exn | Returns json

text \<open>
  What the service does to its surroundings is recorded in one trace: every engine call
  and every lock acquisition and release, in program order.
\<close>

datatype event =
    OmapLockAcquire
  | OmapLockRelease
  | RpcLockAcquire
  | RpcLockRelease
  | Rpc rpc_call

section \<open>The persisted record\<close>

text \<open>
  Modelled from the spec: \<^verbatim>\<open>GatewayState\<close> (\<^verbatim>\<open>control/state.py\<close>) is not part of the
  source under verification. Section 6 of the specification describes it as a
  string-to-string mapping with add and remove operations per resource kind, each keyed
  by a deterministic identity-derived string with a kind-specific prefix. A key is
  modelled as the resource kind together with the identity components it is built from;
  \<^verbatim>\<open>key.startswith(PREFIX)\<close> is the test of the kind. The mapping keeps Python's
  insertion order, which the scans of the service observe. A store operation may raise
  (section 4.3, step 4); the record is then left as it was.
\<close>

datatype key =
    subsystem_key string
  | namespace_key string json
  | namespace_qos_key string json
  | host_key string string
  | listener_key string string string string int

fun is_subsystem_key :: "key \<Rightarrow> bool" where
  "is_subsystem_key (subsystem_key n) = True"
| "is_subsystem_key _ = False"

fun is_namespace_key :: "key \<Rightarrow> bool" where
  "is_namespace_key (namespace_key n i) = True"
| "is_namespace_key _ = False"

fun is_listener_key :: "key \<Rightarrow> bool" where
  "is_listener_key (listener_key n g t a p) = True"
| "is_listener_key _ = False"

datatype store_op = add_key key string | remove_key key

datatype message =
    subsystem_msg create_subsystem_req
  | namespace_msg namespace_add_req
  | namespace_qos_msg namespace_set_qos_req
  | listener_msg create_listener_req

section \<open>Environment and service state\<close>

text \<open>
  The integer types of protobuf fields. Assigning a Python integer outside the range of
  the field's type raises \<^verbatim>\<open>ValueError\<close>.
\<close>

datatype int_type = int32 | int64 | uint32 | uint64

fun fits :: "int_type \<Rightarrow> int \<Rightarrow> bool" where
  "fits int32 n = (- (2 ^ 31) \<le> n \<and> n < 2 ^ 31)"
| "fits int64 n = (- (2 ^ 63) \<le> n \<and> n < 2 ^ 63)"
| "fits uint32 n = (0 \<le> n \<and> n < 2 ^ 32)"
| "fits uint64 n = (0 \<le> n \<and> n < 2 ^ 64)"

text \<open>
  Everything outside the file is a parameter: the engine (a function of the trace so far
  and the call, so that it may keep state of its own), \<^verbatim>\<open>json.loads\<close> (\<open>None\<close> when it
  raises), \<^verbatim>\<open>json_format.MessageToJson\<close>, Python's \<^verbatim>\<open>int(str)\<close> and \<^verbatim>\<open>str(value)\<close>, the failures of the
  store, the static configuration, the enum tables of \<^verbatim>\<open>GatewayEnumUtils\<close>, the values
  drawn from \<^verbatim>\<open>random.randint\<close> and \<^verbatim>\<open>uuid.uuid4\<close> during the call, and the integer
  type that \<^verbatim>\<open>gateway.proto\<close> (not part of the source) declares for the four QoS limits of
  \<^verbatim>\<open>namespace_set_qos_req\<close>.
\<close>

record env =
  engine :: "event list \<Rightarrow> rpc_call \<Rightarrow> rpc_result"
  json_loads :: "string \<Rightarrow> json option"
  MessageToJson :: "message \<Rightarrow> string"
  int_of_str :: "string \<Rightarrow> int option"
  py_str :: "json \<Rightarrow> string"
  store_raises :: "store_op \<Rightarrow> (key \<times> string) list \<Rightarrow> bool"
  DISCOVERY_NQN :: string
  own_gateway_name :: string
  min_controller_id :: int
  max_controller_id :: int
  bdevs_per_cluster :: int
  rados_id :: "string option"
  librbd_core_mask :: "string option"
  randint :: int
  uuid4 :: string
  TransportType_key :: "int \<Rightarrow> string option"
  AddressFamily_key :: "int \<Rightarrow> string option"
  AutoHAState_key :: "int \<Rightarrow> string option"
  AutoHAState_value :: "string \<Rightarrow> int"
  qos_limit_type :: int_type

record gw =
  omap :: "(key \<times> string) list"
  trace :: "event list"
  clusters :: "(string \<times> int) list"
  current_cluster :: "string option"
  omap_lock_held :: bool

type_synonym 'a res = "(exn + 'a) \<times> gw"

definition rpc :: "env \<Rightarrow> rpc_call \<Rightarrow> gw \<Rightarrow> rpc_result \<times> gw" where
  "rpc env c s = (engine env (trace s) c, s\<lparr>trace := trace s @ [Rpc c]\<rparr>)"

definition log_event :: "event \<Rightarrow> gw \<Rightarrow> gw" where
  "log_event e s = s\<lparr>trace := trace s @ [e]\<rparr>"

definition store :: "env \<Rightarrow> store_op \<Rightarrow> gw \<Rightarrow> unit res" where
  "store env op s =
     (if store_raises env op (omap s) then (Inl (OtherError ''store''), s)
      else case op of
             add_key k v \<Rightarrow> (Inr (), s\<lparr>omap := AList.update k v (omap s)\<rparr>)
           | remove_key k \<Rightarrow> (Inr (), s\<lparr>omap := AList.delete k (omap s)\<rparr>))"

text \<open>\<^verbatim>\<open>json.loads(val)\<close> for a stored value: an exception when it does not parse.\<close>

definition loads :: "env \<Rightarrow> string \<Rightarrow> exn + json" where
  "loads env v = (case json_loads env v of None \<Rightarrow> Inl ValueError | Some j \<Rightarrow> Inr j)"


section \<open>The two locks\<close>

text \<open>
  Modelled from the spec: the distributed lock object \<^verbatim>\<open>omap_lock\<close> (class
  \<^verbatim>\<open>OmapLock\<close> of \<^verbatim>\<open>control/state.py\<close>) is not part of the source. Following
  sections 4.1 and 5 of the specification, \<^verbatim>\<open>with self.omap_lock(context=context)\<close> is a
  reentrant acquisition: a no-op when the lock is already held by the call, otherwise
  acquire, run, release on every exit path. \<^verbatim>\<open>execute_omap_locking_function\<close> acquires
  the lock around the function it is given. Waiting for a lock is outside the model; its
  acquisition and release are recorded in the trace.
\<close>

definition with_omap_lock :: "(gw \<Rightarrow> 'a res) \<Rightarrow> gw \<Rightarrow> 'a res" where
  "with_omap_lock body s =
     (if omap_lock_held s then body s
      else case body ((log_event OmapLockAcquire s)\<lparr>omap_lock_held := True\<rparr>) of
             (r, s') \<Rightarrow> (r, (log_event OmapLockRelease s')\<lparr>omap_lock_held := False\<rparr>))"

definition execute_omap_locking_function :: "(gw \<Rightarrow> 'a res) \<Rightarrow> gw \<Rightarrow> 'a res" where
  "execute_omap_locking_function grpc_func s = with_omap_lock grpc_func s"

text \<open>\<^verbatim>\<open>with self.rpc_lock:\<close>\<close>

definition with_rpc_lock :: "(gw \<Rightarrow> 'a res) \<Rightarrow> gw \<Rightarrow> 'a res" where
  "with_rpc_lock body s =
     (case body (log_event RpcLockAcquire s) of
        (r, s') \<Rightarrow> (r, log_event RpcLockRelease s'))"

definition grpc_function_with_lock :: "(gw \<Rightarrow> 'a res) \<Rightarrow> gw \<Rightarrow> 'a res" where
  "grpc_function_with_lock func s = with_rpc_lock func s"

definition execute_grpc_function :: "(gw \<Rightarrow> 'a res) \<Rightarrow> gw \<Rightarrow> 'a res" where
  "execute_grpc_function func s =
     execute_omap_locking_function (grpc_function_with_lock func) s"

text \<open>\<^verbatim>\<open>if context: assert self.omap_lock.locked()\<close>\<close>

definition assert_locked :: "bool \<Rightarrow> gw \<Rightarrow> bool" where
  "assert_locked live s = (live \<longrightarrow> omap_lock_held s)"

section \<open>Error translator\<close>

definition json_error_text :: string where
  "json_error_text = ''Got JSON-RPC error response''"

text \<open>
  \<^verbatim>\<open>parse_json_exeption\<close>. The source initialises \<^verbatim>\<open>rsp = None\<close> but reads
  \<^verbatim>\<open>resp\<close>: when no assignment to \<^verbatim>\<open>resp\<close> is reached (a marker is missing, or
  \<^verbatim>\<open>json.loads\<close> raised inside the \<^verbatim>\<open>try\<close>), the test \<^verbatim>\<open>if resp:\<close> raises
  \<^verbatim>\<open>UnboundLocalError\<close>. The local \<open>resp\<close> below is \<open>None\<close> exactly when the
  variable is unbound. The result is the returned Python value, \<open>JNull\<close> for
  \<^verbatim>\<open>None\<close>.
\<close>

definition parse_json_exeption :: "env \<Rightarrow> exn \<Rightarrow> exn + json" where
  "parse_json_exeption env ex =
     (case ex of
        JSONRPCException message \<Rightarrow>
          (let resp =
             (case find_str message json_error_text of
                None \<Rightarrow> None
              | Some i \<Rightarrow>
                  (let resp_str = drop (i + length json_error_text) message
                   in case find_str resp_str ''response:'' of
                        None \<Rightarrow> None
                      | Some j \<Rightarrow> json_loads env (drop (j + length ''response:'') resp_str)))
           in case resp of
                None \<Rightarrow> Inl UnboundLocalError
              | Some r \<Rightarrow>
                  if truthy r then
                    (case subscript r ''code'' of
                       Inl e \<Rightarrow> Inl e
                     | Inr (JInt c) \<Rightarrow>
                         if c < 0
                         then (case r of
                                 JObj kvs \<Rightarrow> Inr (JObj (AList.update ''code'' (JInt (- c)) kvs))
                               | _ \<Rightarrow> Inl TypeError)
                         else Inr r
                     | Inr (JBool b) \<Rightarrow> Inr r
                     | Inr _ \<Rightarrow> Inl TypeError)
                  else Inr r)
      | _ \<Rightarrow> Inr JNull)"

text \<open>
  The handler repeated at every engine call site:
  \<^verbatim>\<open>resp = self.parse_json_exeption(ex); status = errno.EINVAL\<close>,
  \<^verbatim>\<open>if resp: status = resp["code"]; errmsg = f"...{resp['message']}"\<close>.
  It yields the status of the reply, or the exception that escapes the handler.
\<close>

definition failure_status :: "env \<Rightarrow> exn \<Rightarrow> exn + int" where
  "failure_status env ex =
     (case parse_json_exeption env ex of
        Inl e \<Rightarrow> Inl e
      | Inr resp \<Rightarrow>
          if truthy resp then
            (case subscript resp ''code'' of
               Inl e \<Rightarrow> Inl e
             | Inr c \<Rightarrow>
                 (case subscript resp ''message'' of
                    Inl e \<Rightarrow> Inl e
                  | Inr m \<Rightarrow>
                      (case c of
                         JInt n \<Rightarrow> Inr n
                       | JBool b \<Rightarrow> Inr (if b then 1 else 0)
                       | _ \<Rightarrow> Inl TypeError)))
          else Inr EINVAL)"

definition fail_with :: "env \<Rightarrow> exn \<Rightarrow> (int \<Rightarrow> reply) \<Rightarrow> gw \<Rightarrow> reply res" where
  "fail_with env ex mk s =
     (case failure_status env ex of
        Inl e \<Rightarrow> (Inl e, s)
      | Inr st \<Rightarrow> (Inr (mk st), s))"

section \<open>Cluster context pool\<close>

definition init_cluster_context :: "env \<Rightarrow> gw \<Rightarrow> exn + gw" where
  "init_cluster_context env s =
     (if bdevs_per_cluster env < 1 then Inl (OtherError ''invalid configuration'')
      else Inr (s\<lparr>clusters := [], current_cluster := None\<rparr>))"

definition alloc_cluster :: "env \<Rightarrow> gw \<Rightarrow> string res" where
  "alloc_cluster env s =
     (let name = ''cluster_context_'' @ show_nat (length (clusters s))
      in case rpc env (bdev_rbd_register_cluster name (rados_id env) (librbd_core_mask env)) s of
           (Raises ex, s1) \<Rightarrow> (Inl ex, s1)
         | (Returns v, s1) \<Rightarrow> (Inr name, s1))"

function get_cluster :: "env \<Rightarrow> gw \<Rightarrow> string res" where
  "get_cluster env s =
     (case current_cluster s of
        None \<Rightarrow>
          (case alloc_cluster env s of
             (Inl ex, s1) \<Rightarrow> (Inl ex, s1)
           | (Inr cluster_name, s1) \<Rightarrow>
               (Inr cluster_name,
                s1\<lparr>current_cluster := Some cluster_name,
                   clusters := AList.update cluster_name 1 (clusters s1)\<rparr>))
      | Some cur \<Rightarrow>
          (case map_of (clusters s) cur of
             None \<Rightarrow> (Inl KeyError, s)
           | Some n \<Rightarrow>
               if n \<ge> bdevs_per_cluster env
               then get_cluster env (s\<lparr>current_cluster := None\<rparr>)
               else (Inr cur, s\<lparr>clusters := AList.update cur (n + 1) (clusters s)\<rparr>)))"
  by pat_completeness auto
termination
  by (relation "measure (\<lambda>(env, s). if current_cluster s = None then 0 else 1)") auto

declare get_cluster.simps [simp del]

section \<open>Block devices\<close>

definition is_discovery_nqn :: "env \<Rightarrow> string \<Rightarrow> bool" where
  "is_discovery_nqn env n = (n = DISCOVERY_NQN env)"

definition create_bdev ::
  "env \<Rightarrow> string \<Rightarrow> string \<Rightarrow> string \<Rightarrow> string \<Rightarrow> int \<Rightarrow> gw \<Rightarrow> reply res" where
  "create_bdev env name uuid' rbd_pool rbd_image bsize s =
     (case get_cluster env s of
        (Inl ex, s1) \<Rightarrow> fail_with env ex (\<lambda>st. bdev_status st []) s1
      | (Inr cluster_name, s1) \<Rightarrow>
          (case rpc env (bdev_rbd_create name cluster_name rbd_pool rbd_image bsize uuid') s1 of
             (Raises ex, s2) \<Rightarrow> fail_with env ex (\<lambda>st. bdev_status st []) s2
           | (Returns bdev_name, s2) \<Rightarrow>
               if \<not> truthy bdev_name then (Inr (bdev_status EINVAL []), s2)
               else (Inr (bdev_status 0 name), s2)))"

definition resize_bdev :: "env \<Rightarrow> json \<Rightarrow> int \<Rightarrow> gw \<Rightarrow> reply res" where
  "resize_bdev env bdev_name sz s =
     with_rpc_lock
       (\<lambda>s. case rpc env (bdev_rbd_resize bdev_name sz) s of
               (Raises ex, s1) \<Rightarrow> fail_with env ex req_status s1
             | (Returns ret, s1) \<Rightarrow>
                 if \<not> truthy ret then (Inr (req_status EINVAL), s1)
                 else (Inr (req_status 0), s1)) s"

definition delete_bdev :: "env \<Rightarrow> json \<Rightarrow> gw \<Rightarrow> reply res" where
  "delete_bdev env bdev_name s =
     (case rpc env (bdev_rbd_delete bdev_name) s of
        (Raises ex, s1) \<Rightarrow> fail_with env ex req_status s1
      | (Returns ret, s1) \<Rightarrow>
          if \<not> truthy ret then (Inr (req_status EINVAL), s1)
          else (Inr (req_status 0), s1))"


section \<open>Namespaces\<close>

text \<open>A protobuf integer field accepts an integer only.\<close>

fun as_int :: "json \<Rightarrow> exn + int" where
  "as_int (JInt n) = Inr n"
| "as_int (JBool b) = Inr (if b then 1 else 0)"
| "as_int _ = Inl TypeError"

fun reply_nsid :: "reply \<Rightarrow> int" where
  "reply_nsid (nsid_status st n) = n"
| "reply_nsid _ = 0"

definition create_namespace ::
  "env \<Rightarrow> string \<Rightarrow> json \<Rightarrow> json \<Rightarrow> int \<Rightarrow> json \<Rightarrow> bool \<Rightarrow> gw \<Rightarrow> reply res" where
  "create_namespace env sub_nqn bdev_name nsid' anagrp uuid' live s =
     (if \<not> assert_locked live s then (Inl AssertionError, s)
      else if anagrp > MAX_ANA_GROUPS then (Inr (nsid_status EINVAL 0), s)
      else if is_discovery_nqn env sub_nqn then (Inr (nsid_status EINVAL 0), s)
      else case rpc env (nvmf_subsystem_add_ns sub_nqn bdev_name nsid' anagrp uuid') s of
             (Raises ex, s1) \<Rightarrow> fail_with env ex (\<lambda>st. nsid_status st 0) s1
           | (Returns new_nsid, s1) \<Rightarrow>
               if \<not> truthy new_nsid then (Inr (nsid_status EINVAL 0), s1)
               else (case as_int new_nsid of
                       Inl e \<Rightarrow> (Inl e, s1)
                     | Inr n \<Rightarrow> (Inr (nsid_status 0 n), s1)))"

text \<open>
  \<^verbatim>\<open>find_unique_bdev_name\<close>: its parameter \<^verbatim>\<open>uuid\<close> shadows the module of that name,
  so the branch for a missing UUID raises \<^verbatim>\<open>AttributeError\<close>.
\<close>

definition find_unique_bdev_name :: "env \<Rightarrow> json \<Rightarrow> exn + json" where
  "find_unique_bdev_name env uuid' =
     (if \<not> truthy uuid' then Inl AttributeError
      else Inr (JStr (''bdev_'' @ (case uuid' of JStr u \<Rightarrow> u | _ \<Rightarrow> py_str env uuid'))))"

definition remove_namespace_from_state :: "env \<Rightarrow> string \<Rightarrow> json \<Rightarrow> bool \<Rightarrow> gw \<Rightarrow> reply res" where
  "remove_namespace_from_state env sub_nqn nsid' live s =
     (if \<not> live then (Inr (req_status 0), s)
      else if \<not> omap_lock_held s then (Inl AssertionError, s)
      else case store env (remove_key (namespace_qos_key sub_nqn nsid')) s of
             (r1, s1) \<Rightarrow>
               (case store env (remove_key (namespace_key sub_nqn nsid')) s1 of
                  (Inl ex, s2) \<Rightarrow> (Inr (req_status EINVAL), s2)
                | (Inr u, s2) \<Rightarrow> (Inr (req_status 0), s2)))"

definition remove_namespace :: "env \<Rightarrow> string \<Rightarrow> json \<Rightarrow> bool \<Rightarrow> gw \<Rightarrow> reply res" where
  "remove_namespace env sub_nqn nsid' live s =
     (if \<not> assert_locked live s then (Inl AssertionError, s)
      else if is_discovery_nqn env sub_nqn then (Inr (req_status EINVAL), s)
      else case rpc env (nvmf_subsystem_remove_ns sub_nqn nsid') s of
             (Raises ex, s1) \<Rightarrow> fail_with env ex req_status s1
           | (Returns ret, s1) \<Rightarrow>
               if \<not> truthy ret then (Inr (req_status EINVAL), s1)
               else (Inr (req_status 0), s1))"

text \<open>
  \<^verbatim>\<open>find_namespace_and_bdev_name\<close>. The inner loop runs inside the \<^verbatim>\<open>try\<close> of the
  outer one: an exception leaves the inner loop, skips the \<^verbatim>\<open>break\<close> and goes on with
  the next subsystem, keeping what was assigned so far. The first component of the
  result of \<open>scan_ns_list\<close> tells whether an exception was raised.
\<close>

definition skip_by_nsid :: "int \<Rightarrow> json \<Rightarrow> exn + bool" where
  "skip_by_nsid nsid' n =
     (if nsid' > 0
      then (case subscript n ''nsid'' of Inl e \<Rightarrow> Inl e | Inr v \<Rightarrow> Inr (\<not> py_eq_int nsid' v))
      else Inr False)"

definition skip_by_uuid :: "string \<Rightarrow> json \<Rightarrow> exn + bool" where
  "skip_by_uuid uuid' n =
     (if uuid' \<noteq> []
      then (case subscript n ''uuid'' of Inl e \<Rightarrow> Inl e | Inr v \<Rightarrow> Inr (\<not> py_eq_str uuid' v))
      else Inr False)"

fun scan_ns_list :: "int \<Rightarrow> string \<Rightarrow> json list \<Rightarrow> json \<times> json \<Rightarrow> bool \<times> json \<times> json" where
  "scan_ns_list nsid' uuid' [] acc = (False, acc)"
| "scan_ns_list nsid' uuid' (n # ns) (found_ns, bdev_name) =
     (case skip_by_nsid nsid' n of
        Inl e \<Rightarrow> (True, found_ns, bdev_name)
      | Inr True \<Rightarrow> scan_ns_list nsid' uuid' ns (found_ns, bdev_name)
      | Inr False \<Rightarrow>
          (case skip_by_uuid uuid' n of
             Inl e \<Rightarrow> (True, found_ns, bdev_name)
           | Inr True \<Rightarrow> scan_ns_list nsid' uuid' ns (found_ns, bdev_name)
           | Inr False \<Rightarrow>
               (case subscript n ''bdev_name'' of
                  Inl e \<Rightarrow> (True, n, bdev_name)
                | Inr b \<Rightarrow> scan_ns_list nsid' uuid' ns (n, b))))"

fun scan_subsystems :: "string \<Rightarrow> int \<Rightarrow> string \<Rightarrow> json list \<Rightarrow> json \<times> json \<Rightarrow> json \<times> json" where
  "scan_subsystems sub_nqn nsid' uuid' [] acc = acc"
| "scan_subsystems sub_nqn nsid' uuid' (sub # rest) acc =
     (case subscript sub ''nqn'' of
        Inl e \<Rightarrow> scan_subsystems sub_nqn nsid' uuid' rest acc
      | Inr v \<Rightarrow>
          if \<not> py_eq_str sub_nqn v then scan_subsystems sub_nqn nsid' uuid' rest acc
          else (case py_iter (case subscript sub ''namespaces'' of
                                Inl e \<Rightarrow> JArr [] | Inr l \<Rightarrow> l) of
                  Inl e \<Rightarrow> scan_subsystems sub_nqn nsid' uuid' rest acc
                | Inr ns \<Rightarrow>
                    (case scan_ns_list nsid' uuid' ns acc of
                       (True, acc') \<Rightarrow> scan_subsystems sub_nqn nsid' uuid' rest acc'
                     | (False, acc') \<Rightarrow> acc')))"

definition find_namespace_and_bdev_name ::
  "env \<Rightarrow> string \<Rightarrow> int \<Rightarrow> string \<Rightarrow> bool \<Rightarrow> gw \<Rightarrow> (json \<times> json) res" where
  "find_namespace_and_bdev_name env sub_nqn nsid' uuid' needs_lock s =
     (if nsid' \<le> 0 \<and> uuid' = [] then (Inr (JNull, JNull), s)
      else
        (case (if needs_lock
               then (case rpc env (nvmf_get_subsystems sub_nqn) (log_event RpcLockAcquire s) of
                       (r, s1) \<Rightarrow> (r, log_event RpcLockRelease s1))
               else rpc env (nvmf_get_subsystems sub_nqn) s) of
           (Raises ex, s1) \<Rightarrow> (Inr (JNull, JNull), s1)
         | (Returns ret, s1) \<Rightarrow>
             if \<not> truthy ret then (Inr (JNull, JNull), s1)
             else (case py_iter ret of
                     Inl e \<Rightarrow> (Inl e, s1)
                   | Inr subs \<Rightarrow>
                       (Inr (scan_subsystems sub_nqn nsid' uuid' subs (JNull, JNull)), s1))))"

definition namespace_add_safe :: "env \<Rightarrow> namespace_add_req \<Rightarrow> bool \<Rightarrow> gw \<Rightarrow> reply res" where
  "namespace_add_safe env request live s =
     (let request = (if uuid request = [] then request\<lparr>uuid := uuid4 env\<rparr> else request)
      in with_omap_lock
           (\<lambda>s. case find_unique_bdev_name env (JStr (uuid request)) of
                   Inl e \<Rightarrow> (Inl e, s)
                 | Inr bdev_name \<Rightarrow>
                     (case create_bdev env (case bdev_name of JStr b \<Rightarrow> b | _ \<Rightarrow> [])
                             (uuid request) (rbd_pool_name request) (rbd_image_name request)
                             (block_size request) s of
                        (Inl e, s1) \<Rightarrow> (Inl e, s1)
                      | (Inr ret_bdev, s1) \<Rightarrow>
                          if status ret_bdev \<noteq> 0 then
                            (case delete_bdev env bdev_name s1 of
                               (r, s2) \<Rightarrow> (Inr (nsid_status (status ret_bdev) 0), s2))
                          else
                            (case create_namespace env (subsystem_nqn request) bdev_name
                                    (JInt (nsid request)) (anagrpid request)
                                    (JStr (uuid request)) live s1 of
                               (Inl e, s2) \<Rightarrow> (Inl e, s2)
                             | (Inr ret_ns, s2) \<Rightarrow>
                                 if status ret_ns \<noteq> 0 then
                                   (case delete_bdev env bdev_name s2 of
                                      (r, s3) \<Rightarrow> (Inr (nsid_status (status ret_ns) 0), s3))
                                 else if live then
                                   (case store env
                                           (add_key
                                              (namespace_key (subsystem_nqn request)
                                                 (JInt (reply_nsid ret_ns)))
                                              (MessageToJson env (namespace_msg request))) s2 of
                                      (Inl e, s3) \<Rightarrow> (Inr (req_status EINVAL), s3)
                                    | (Inr u, s3) \<Rightarrow>
                                        (Inr (nsid_status 0 (reply_nsid ret_ns)), s3))
                                 else (Inr (nsid_status 0 (reply_nsid ret_ns)), s2)))) s)"

definition namespace_add :: "env \<Rightarrow> namespace_add_req \<Rightarrow> bool \<Rightarrow> gw \<Rightarrow> reply res" where
  "namespace_add env request live s =
     execute_grpc_function (namespace_add_safe env request live) s"

definition namespace_delete_safe :: "env \<Rightarrow> namespace_ref \<Rightarrow> bool \<Rightarrow> gw \<Rightarrow> reply res" where
  "namespace_delete_safe env request live s =
     with_omap_lock
       (\<lambda>s. case find_namespace_and_bdev_name env (subsystem_nqn request) (nsid request)
                    (uuid request) False s of
               (Inl e, s1) \<Rightarrow> (Inl e, s1)
             | (Inr (ns, bdev_name), s1) \<Rightarrow>
                 if \<not> truthy ns then (Inr (req_status ENODEV), s1)
                 else
                   (case subscript ns ''nsid'' of
                      Inl e \<Rightarrow> (Inl e, s1)
                    | Inr nsid' \<Rightarrow>
                        (case remove_namespace env (subsystem_nqn request) nsid' live s1 of
                           (Inl e, s2) \<Rightarrow> (Inl e, s2)
                         | (Inr ret, s2) \<Rightarrow>
                             if status ret \<noteq> 0 then (Inr ret, s2)
                             else
                               (case remove_namespace_from_state env (subsystem_nqn request)
                                       nsid' live s2 of
                                  (Inl e, s3) \<Rightarrow> (Inl e, s3)
                                | (Inr r, s3) \<Rightarrow>
                                    if truthy bdev_name then
                                      (case delete_bdev env bdev_name s3 of
                                         (Inl e, s4) \<Rightarrow> (Inl e, s4)
                                       | (Inr ret_del, s4) \<Rightarrow>
                                           if status ret_del \<noteq> 0
                                           then (Inr (nsid_status (status ret_del) 0), s4)
                                           else (Inr (req_status 0), s4))
                                    else (Inr (req_status 0), s3))))) s"

definition namespace_delete :: "env \<Rightarrow> namespace_ref \<Rightarrow> bool \<Rightarrow> gw \<Rightarrow> reply res" where
  "namespace_delete env request live s =
     execute_grpc_function (namespace_delete_safe env request live) s"

definition namespace_resize :: "env \<Rightarrow> namespace_resize_req \<Rightarrow> bool \<Rightarrow> gw \<Rightarrow> reply res" where
  "namespace_resize env request live s =
     (case find_namespace_and_bdev_name env (subsystem_nqn request) (nsid request)
             (uuid request) True s of
        (Inl e, s1) \<Rightarrow> (Inl e, s1)
      | (Inr (ns, bdev_name), s1) \<Rightarrow>
          if \<not> truthy ns then (Inr (req_status ENODEV), s1)
          else if \<not> truthy bdev_name then (Inr (req_status ENODEV), s1)
          else (case resize_bdev env bdev_name (new_size request) s1 of
                  (Inl e, s2) \<Rightarrow> (Inl e, s2)
                | (Inr ret, s2) \<Rightarrow> (Inr (req_status (status ret)), s2)))"


text \<open>
  \<^verbatim>\<open>namespace_get_io_stats\<close>. The handler of the final \<^verbatim>\<open>try\<close> formats the variable
  \<^verbatim>\<open>s\<close>, which this function never assigns, so every exception raised while the reply
  is built ends in \<^verbatim>\<open>NameError\<close>. The payload is the list of the values read, in the
  order of the constructor's arguments; the type checks of the protobuf constructor are
  not modelled.
\<close>

fun py_first :: "json \<Rightarrow> exn + json" where
  "py_first (JArr (x # xs)) = Inr x"
| "py_first (JStr (c # cs)) = Inr (JStr [c])"
| "py_first (JObj kvs) = Inl KeyError"
| "py_first _ = Inl TypeError"

fun subscripts :: "json \<Rightarrow> string list \<Rightarrow> exn + json list" where
  "subscripts j [] = Inr []"
| "subscripts j (k # ks) =
     (case subscript j k of
        Inl e \<Rightarrow> Inl e
      | Inr v \<Rightarrow> (case subscripts j ks of Inl e \<Rightarrow> Inl e | Inr vs \<Rightarrow> Inr (v # vs)))"

definition io_stat_fields :: "string list" where
  "io_stat_fields =
     [''bytes_read'', ''num_read_ops'', ''bytes_written'', ''num_write_ops'',
      ''bytes_unmapped'', ''num_unmap_ops'', ''read_latency_ticks'',
      ''max_read_latency_ticks'', ''min_read_latency_ticks'', ''write_latency_ticks'',
      ''max_write_latency_ticks'', ''min_write_latency_ticks'', ''unmap_latency_ticks'',
      ''max_unmap_latency_ticks'', ''min_unmap_latency_ticks'', ''copy_latency_ticks'',
      ''max_copy_latency_ticks'', ''min_copy_latency_ticks'', ''io_error'']"

definition build_io_stats :: "json \<Rightarrow> json \<Rightarrow> json \<Rightarrow> exn + reply" where
  "build_io_stats ns bdev_name ret =
     (case subscript ret ''bdevs'' of
        Inl e \<Rightarrow> Inl e
      | Inr bdevs \<Rightarrow>
          if \<not> truthy bdevs then Inr (namespace_io_stats_info ENODEV [])
          else (case py_first bdevs of
                  Inl e \<Rightarrow> Inl e
                | Inr bdev \<Rightarrow>
                    (case subscripts ns [''nsid'', ''uuid''] of
                       Inl e \<Rightarrow> Inl e
                     | Inr ids \<Rightarrow>
                         (case subscripts ret [''tick_rate'', ''ticks''] of
                            Inl e \<Rightarrow> Inl e
                          | Inr ticks \<Rightarrow>
                              (case subscripts bdev io_stat_fields of
                                 Inl e \<Rightarrow> Inl e
                               | Inr stats \<Rightarrow>
                                   Inr (namespace_io_stats_info 0
                                          (ids @ [bdev_name] @ ticks @ stats)))))))"

definition namespace_get_io_stats :: "env \<Rightarrow> namespace_ref \<Rightarrow> bool \<Rightarrow> gw \<Rightarrow> reply res" where
  "namespace_get_io_stats env request live s =
     (case with_rpc_lock
             (\<lambda>s. case find_namespace_and_bdev_name env (subsystem_nqn request) (nsid request)
                          (uuid request) False s of
                     (Inl e, s1) \<Rightarrow> (Inl e, s1)
                   | (Inr (ns, bdev_name), s1) \<Rightarrow>
                       if \<not> truthy ns
                       then (Inr (Inl (namespace_io_stats_info ENODEV [])), s1)
                       else if \<not> truthy bdev_name
                       then (Inr (Inl (namespace_io_stats_info ENODEV [])), s1)
                       else (case rpc env (bdev_get_iostat bdev_name) s1 of
                               (Raises ex, s2) \<Rightarrow>
                                 (case failure_status env ex of
                                    Inl e \<Rightarrow> (Inl e, s2)
                                  | Inr st \<Rightarrow> (Inr (Inl (namespace_io_stats_info st [])), s2))
                             | (Returns ret, s2) \<Rightarrow> (Inr (Inr (ns, bdev_name, ret)), s2))) s of
        (Inl e, s') \<Rightarrow> (Inl e, s')
      | (Inr (Inl early), s') \<Rightarrow> (Inr early, s')
      | (Inr (Inr (ns, bdev_name, ret)), s') \<Rightarrow>
          if \<not> truthy ret then (Inr (namespace_io_stats_info EINVAL []), s')
          else (case build_io_stats ns bdev_name ret of
                  Inl e \<Rightarrow> (Inl NameError, s')
                | Inr io_stats \<Rightarrow> (Inr io_stats, s')))"

text \<open>\<^verbatim>\<open>int(v)\<close> for a stored QoS value.\<close>

definition py_int :: "env \<Rightarrow> json \<Rightarrow> exn + int" where
  "py_int env v =
     (case v of
        JInt n \<Rightarrow> Inr n
      | JBool b \<Rightarrow> Inr (if b then 1 else 0)
      | JStr t \<Rightarrow> (case int_of_str env t of None \<Rightarrow> Inl ValueError | Some n \<Rightarrow> Inr n)
      | _ \<Rightarrow> Inl TypeError)"

text \<open>
  One line of the merge:
  \<^verbatim>\<open>if not request.HasField(k) and ns_qos_entry.get(k) != None: request.k = int(ns_qos_entry[k])\<close>.
  The assignment to the protobuf field raises \<^verbatim>\<open>ValueError\<close> when the integer is outside
  the range of the field's type.
\<close>

definition merge_field :: "env \<Rightarrow> json \<Rightarrow> string \<Rightarrow> int option \<Rightarrow> exn + int option" where
  "merge_field env ns_qos_entry k cur =
     (case cur of
        Some v \<Rightarrow> Inr (Some v)
      | None \<Rightarrow>
          (case ns_qos_entry of
             JObj kvs \<Rightarrow>
               (case map_of kvs k of
                  None \<Rightarrow> Inr None
                | Some JNull \<Rightarrow> Inr None
                | Some v \<Rightarrow>
                    (case py_int env v of
                       Inl e \<Rightarrow> Inl e
                     | Inr n \<Rightarrow>
                         if fits (qos_limit_type env) n then Inr (Some n)
                         else Inl ValueError))
           | _ \<Rightarrow> Inl AttributeError))"

definition merge_qos :: "env \<Rightarrow> json \<Rightarrow> namespace_set_qos_req \<Rightarrow> exn + namespace_set_qos_req" where
  "merge_qos env ns_qos_entry request =
     (if \<not> truthy ns_qos_entry then Inr request
      else
        case merge_field env ns_qos_entry ''rw_ios_per_second'' (rw_ios_per_second request) of
          Inl e \<Rightarrow> Inl e
        | Inr a \<Rightarrow>
        (case merge_field env ns_qos_entry ''rw_mbytes_per_second''
                (rw_mbytes_per_second request) of
          Inl e \<Rightarrow> Inl e
        | Inr b \<Rightarrow>
        (case merge_field env ns_qos_entry ''r_mbytes_per_second''
                (r_mbytes_per_second request) of
          Inl e \<Rightarrow> Inl e
        | Inr c \<Rightarrow>
        (case merge_field env ns_qos_entry ''w_mbytes_per_second''
                (w_mbytes_per_second request) of
          Inl e \<Rightarrow> Inl e
        | Inr d \<Rightarrow>
            Inr (request\<lparr>rw_ios_per_second := a, rw_mbytes_per_second := b,
                         r_mbytes_per_second := c, w_mbytes_per_second := d\<rparr>)))))"

text \<open>The previous QoS entry: read in live mode only, \<open>JNull\<close> when absent or unparsable.\<close>

definition previous_qos :: "env \<Rightarrow> string \<Rightarrow> json \<Rightarrow> bool \<Rightarrow> gw \<Rightarrow> json" where
  "previous_qos env sub_nqn nsid' live s =
     (if \<not> live then JNull
      else case map_of (omap s) (namespace_qos_key sub_nqn nsid') of
             None \<Rightarrow> JNull
           | Some state_ns_qos \<Rightarrow>
               (case loads env state_ns_qos of Inl e \<Rightarrow> JNull | Inr j \<Rightarrow> j))"

definition namespace_set_qos_limits_safe ::
  "env \<Rightarrow> namespace_set_qos_req \<Rightarrow> bool \<Rightarrow> gw \<Rightarrow> reply res" where
  "namespace_set_qos_limits_safe env request live s =
     (case find_namespace_and_bdev_name env (subsystem_nqn request) (nsid request)
             (uuid request) False s of
        (Inl e, s1) \<Rightarrow> (Inl e, s1)
      | (Inr (ns, bdev_name), s1) \<Rightarrow>
          if \<not> truthy ns then (Inr (req_status ENODEV), s1)
          else if \<not> truthy bdev_name then (Inr (req_status ENODEV), s1)
          else
            (case subscript ns ''nsid'' of
               Inl e \<Rightarrow> (Inl e, s1)
             | Inr nsid' \<Rightarrow>
                 (case merge_qos env (previous_qos env (subsystem_nqn request) nsid' live s1)
                         request of
                    Inl e \<Rightarrow> (Inl e, s1)
                  | Inr merged \<Rightarrow>
                      with_omap_lock
                        (\<lambda>s. case rpc env
                                     (bdev_set_qos_limit bdev_name (rw_ios_per_second request)
                                        (rw_mbytes_per_second request)
                                        (r_mbytes_per_second request)
                                        (w_mbytes_per_second request)) s of
                                (Raises ex, s2) \<Rightarrow> fail_with env ex req_status s2
                              | (Returns ret, s2) \<Rightarrow>
                                  if \<not> truthy ret then (Inr (req_status EINVAL), s2)
                                  else if live then
                                    (case store env
                                            (add_key
                                               (namespace_qos_key (subsystem_nqn request) nsid')
                                               (MessageToJson env (namespace_qos_msg merged)))
                                            s2 of
                                       (Inl e, s3) \<Rightarrow> (Inr (req_status EINVAL), s3)
                                     | (Inr u, s3) \<Rightarrow> (Inr (req_status 0), s3))
                                  else (Inr (req_status 0), s2)) s1)))"

definition namespace_set_qos_limits ::
  "env \<Rightarrow> namespace_set_qos_req \<Rightarrow> bool \<Rightarrow> gw \<Rightarrow> reply res" where
  "namespace_set_qos_limits env request live s =
     execute_grpc_function (namespace_set_qos_limits_safe env request live) s"


text \<open>
  \<^verbatim>\<open>namespace_change_load_balancing_group_safe\<close>. The entry written back is a fresh
  \<^verbatim>\<open>namespace_add_req\<close> filled from the stored one; a missing key leaves the default, any
  other exception (a value of the wrong type, a store failure) is reported as \<open>EINVAL\<close>.
\<close>

definition str_field :: "json \<Rightarrow> string \<Rightarrow> exn + string" where
  "str_field entry k =
     (case subscript entry k of
        Inl KeyError \<Rightarrow> Inr []
      | Inl e \<Rightarrow> Inl e
      | Inr (JStr v) \<Rightarrow> Inr v
      | Inr _ \<Rightarrow> Inl TypeError)"

definition int_field :: "json \<Rightarrow> string \<Rightarrow> exn + int" where
  "int_field entry k =
     (case subscript entry k of
        Inl KeyError \<Rightarrow> Inr 0
      | Inl e \<Rightarrow> Inl e
      | Inr v \<Rightarrow> as_int v)"

definition rebuild_namespace_add_req :: "json \<Rightarrow> int \<Rightarrow> exn + namespace_add_req" where
  "rebuild_namespace_add_req ns_entry grp =
     (case str_field ns_entry ''rbd_pool_name'' of Inl e \<Rightarrow> Inl e | Inr pool \<Rightarrow>
     (case str_field ns_entry ''rbd_image_name'' of Inl e \<Rightarrow> Inl e | Inr img \<Rightarrow>
     (case str_field ns_entry ''subsystem_nqn'' of Inl e \<Rightarrow> Inl e | Inr sub \<Rightarrow>
     (case int_field ns_entry ''nsid'' of Inl e \<Rightarrow> Inl e | Inr n \<Rightarrow>
     (case int_field ns_entry ''block_size'' of Inl e \<Rightarrow> Inl e | Inr bs \<Rightarrow>
     (case str_field ns_entry ''uuid'' of Inl e \<Rightarrow> Inl e | Inr u \<Rightarrow>
        Inr \<lparr>subsystem_nqn = sub, nsid = n, uuid = u, anagrpid = grp,
             rbd_pool_name = pool, rbd_image_name = img, block_size = bs\<rparr>))))))"

definition key_or :: "json \<Rightarrow> string \<Rightarrow> json \<Rightarrow> exn + json" where
  "key_or j k dflt =
     (case subscript j k of Inl KeyError \<Rightarrow> Inr dflt | Inl e \<Rightarrow> Inl e | Inr v \<Rightarrow> Inr v)"

definition namespace_change_load_balancing_group_safe ::
  "env \<Rightarrow> namespace_change_load_balancing_group_req \<Rightarrow> bool \<Rightarrow> gw \<Rightarrow> reply res" where
  "namespace_change_load_balancing_group_safe env request live s =
     with_omap_lock
       (\<lambda>s. case find_namespace_and_bdev_name env (subsystem_nqn request) (nsid request)
                    (uuid request) False s of
               (Inl e, s1) \<Rightarrow> (Inl e, s1)
             | (Inr (ns, found_bdev), s1) \<Rightarrow>
                 if \<not> truthy ns then (Inr (req_status ENODEV), s1)
                 else
                 (case key_or ns ''uuid'' JNull of Inl e \<Rightarrow> (Inl e, s1) | Inr uuid' \<Rightarrow>
                 (case key_or ns ''nsid'' (JInt 0) of Inl e \<Rightarrow> (Inl e, s1) | Inr nsid' \<Rightarrow>
                  if nsid request \<noteq> 0 \<and> \<not> py_eq_int (nsid request) nsid'
                  then (Inr (req_status ENODEV), s1)
                  else if uuid request \<noteq> [] \<and> \<not> py_eq_str (uuid request) uuid'
                  then (Inr (req_status ENODEV), s1)
                  else
                  (case (if \<not> truthy found_bdev then find_unique_bdev_name env uuid'
                         else Inr found_bdev) of
                     Inl e \<Rightarrow> (Inl e, s1)
                   | Inr bdev_name \<Rightarrow>
                  (case map_of (omap s1) (namespace_key (subsystem_nqn request) nsid') of
                     None \<Rightarrow> (Inr (req_status ENOENT), s1)
                   | Some state_ns \<Rightarrow>
                  (case loads env state_ns of
                     Inl e \<Rightarrow> (Inr (req_status ENOENT), s1)
                   | Inr ns_entry \<Rightarrow>
                  if \<not> truthy ns_entry then (Inr (req_status ENOENT), s1)
                  else
                  (case remove_namespace env (subsystem_nqn request) nsid' live s1 of
                     (Inl e, s2) \<Rightarrow> (Inl e, s2)
                   | (Inr ret_del, s2) \<Rightarrow>
                  if status ret_del \<noteq> 0 then (Inr (req_status (status ret_del)), s2)
                  else
                  (case (if truthy nsid'
                         then remove_namespace_from_state env (subsystem_nqn request) nsid'
                                live s2
                         else (Inr (req_status 0), s2)) of
                     (Inl e, s3) \<Rightarrow> (Inl e, s3)
                   | (Inr r, s3) \<Rightarrow>
                  (case create_namespace env (subsystem_nqn request) bdev_name nsid'
                          (anagrpid request) uuid' live s3 of
                     (Inl e, s4) \<Rightarrow> (Inl e, s4)
                   | (Inr ret_ns, s4) \<Rightarrow>
                  if status ret_ns \<noteq> 0 then (Inr (req_status (status ret_ns)), s4)
                  else if live then
                    (case rebuild_namespace_add_req ns_entry (anagrpid request) of
                       Inl e \<Rightarrow> (Inr (req_status EINVAL), s4)
                     | Inr namespace_add_req \<Rightarrow>
                         (case store env
                                 (add_key (namespace_key (subsystem_nqn request) nsid')
                                    (MessageToJson env (namespace_msg namespace_add_req))) s4 of
                            (Inl e, s5) \<Rightarrow> (Inr (req_status EINVAL), s5)
                          | (Inr u, s5) \<Rightarrow> (Inr (req_status 0), s5)))
                  else (Inr (req_status 0), s4)))))))))) s"

definition namespace_change_load_balancing_group ::
  "env \<Rightarrow> namespace_change_load_balancing_group_req \<Rightarrow> bool \<Rightarrow> gw \<Rightarrow> reply res" where
  "namespace_change_load_balancing_group env request live s =
     execute_grpc_function (namespace_change_load_balancing_group_safe env request live) s"

section \<open>Subsystems\<close>

fun subsystem_scan :: "env \<Rightarrow> string \<Rightarrow> (key \<times> string) list \<Rightarrow> bool" where
  "subsystem_scan env n [] = False"
| "subsystem_scan env n ((k, v) # st) =
     (if \<not> is_subsystem_key k then subsystem_scan env n st
      else case loads env v of
             Inl e \<Rightarrow> subsystem_scan env n st
           | Inr subsys \<Rightarrow>
               (case subscript subsys ''subsystem_nqn'' of
                  Inl e \<Rightarrow> subsystem_scan env n st
                | Inr subnqn \<Rightarrow> if py_eq_str n subnqn then True else subsystem_scan env n st))"

definition subsystem_already_exists :: "env \<Rightarrow> bool \<Rightarrow> string \<Rightarrow> gw \<Rightarrow> bool" where
  "subsystem_already_exists env live n s = (if \<not> live then False else subsystem_scan env n (omap s))"

fun serial_scan :: "env \<Rightarrow> string \<Rightarrow> (key \<times> string) list \<Rightarrow> json" where
  "serial_scan env serial [] = JNull"
| "serial_scan env serial ((k, v) # st) =
     (if \<not> is_subsystem_key k then serial_scan env serial st
      else case loads env v of
             Inl e \<Rightarrow> serial_scan env serial st
           | Inr subsys \<Rightarrow>
               (case subscript subsys ''serial_number'' of
                  Inl e \<Rightarrow> serial_scan env serial st
                | Inr sn \<Rightarrow>
                    if py_eq_str serial sn
                    then (case subscript subsys ''subsystem_nqn'' of
                            Inl e \<Rightarrow> serial_scan env serial st
                          | Inr owner \<Rightarrow> owner)
                    else serial_scan env serial st))"

definition serial_number_already_used :: "env \<Rightarrow> bool \<Rightarrow> string \<Rightarrow> gw \<Rightarrow> json" where
  "serial_number_already_used env live serial s =
     (if \<not> live then JNull else serial_scan env serial (omap s))"

definition show_int :: "int \<Rightarrow> string" where
  "show_int i = (if i < 0 then ''-'' @ show_nat (nat (- i)) else show_nat (nat i))"

definition create_subsystem_safe :: "env \<Rightarrow> create_subsystem_req \<Rightarrow> bool \<Rightarrow> gw \<Rightarrow> reply res" where
  "create_subsystem_safe env request live s =
     (if is_discovery_nqn env (subsystem_nqn request) then (Inr (req_status EINVAL), s)
      else if enable_ha request \<and> \<not> ana_reporting request then (Inr (req_status EINVAL), s)
      else if min_controller_id env > max_controller_id env then (Inr (req_status EINVAL), s)
      else
        (let request =
               (if serial_number request = []
                then request\<lparr>serial_number := ''SPDK'' @ show_int (randint env)\<rparr>
                else request)
         in with_omap_lock
              (\<lambda>s. if subsystem_already_exists env live (subsystem_nqn request) s
                       \<or> truthy (serial_number_already_used env live (serial_number request) s)
                    then (Inr (req_status EEXIST), s)
                    else
                      (case rpc env
                              (nvmf_create_subsystem (subsystem_nqn request)
                                 (serial_number request) (max_namespaces request)
                                 (min_controller_id env) (max_controller_id env)
                                 (ana_reporting request)) s of
                         (Raises ex, s1) \<Rightarrow> fail_with env ex req_status s1
                       | (Returns ret, s1) \<Rightarrow>
                           if \<not> truthy ret then (Inr (req_status EINVAL), s1)
                           else if live then
                             (case store env
                                     (add_key (subsystem_key (subsystem_nqn request))
                                        (MessageToJson env (subsystem_msg request))) s1 of
                                (Inl e, s2) \<Rightarrow> (Inr (req_status EINVAL), s2)
                              | (Inr u, s2) \<Rightarrow> (Inr (req_status 0), s2))
                           else (Inr (req_status 0), s1))) s))"

definition create_subsystem :: "env \<Rightarrow> create_subsystem_req \<Rightarrow> bool \<Rightarrow> gw \<Rightarrow> reply res" where
  "create_subsystem env request live s =
     execute_grpc_function (create_subsystem_safe env request live) s"

fun get_subsystem_namespaces_scan :: "env \<Rightarrow> string \<Rightarrow> (key \<times> string) list \<Rightarrow> json list" where
  "get_subsystem_namespaces_scan env n [] = []"
| "get_subsystem_namespaces_scan env n ((k, v) # st) =
     (if \<not> is_namespace_key k then get_subsystem_namespaces_scan env n st
      else case loads env v of
             Inl e \<Rightarrow> get_subsystem_namespaces_scan env n st
           | Inr ns \<Rightarrow>
               (case subscript ns ''subsystem_nqn'' of
                  Inl e \<Rightarrow> get_subsystem_namespaces_scan env n st
                | Inr owner \<Rightarrow>
                    if py_eq_str n owner
                    then (case subscript ns ''nsid'' of
                            Inl e \<Rightarrow> get_subsystem_namespaces_scan env n st
                          | Inr i \<Rightarrow> i # get_subsystem_namespaces_scan env n st)
                    else get_subsystem_namespaces_scan env n st))"

definition get_subsystem_namespaces :: "env \<Rightarrow> string \<Rightarrow> gw \<Rightarrow> json list" where
  "get_subsystem_namespaces env n s = get_subsystem_namespaces_scan env n (omap s)"

definition remove_subsystem_from_state :: "env \<Rightarrow> string \<Rightarrow> bool \<Rightarrow> gw \<Rightarrow> reply \<times> gw" where
  "remove_subsystem_from_state env n live s =
     (if \<not> live then (req_status 0, s)
      else case store env (remove_key (subsystem_key n)) s of
             (Inl ex, s1) \<Rightarrow> (req_status EINVAL, s1)
           | (Inr u, s1) \<Rightarrow> (req_status 0, s1))"

definition delete_subsystem_safe :: "env \<Rightarrow> delete_subsystem_req \<Rightarrow> bool \<Rightarrow> gw \<Rightarrow> reply res" where
  "delete_subsystem_safe env request live s =
     with_omap_lock
       (\<lambda>s. case rpc env (nvmf_delete_subsystem (subsystem_nqn request)) s of
               (Raises ex, s1) \<Rightarrow>
                 (case remove_subsystem_from_state env (subsystem_nqn request) live s1 of
                    (r, s2) \<Rightarrow> fail_with env ex req_status s2)
             | (Returns ret, s1) \<Rightarrow>
                 if \<not> truthy ret then
                   (case remove_subsystem_from_state env (subsystem_nqn request) live s1 of
                      (r, s2) \<Rightarrow> (Inr (req_status EINVAL), s2))
                 else
                   (case remove_subsystem_from_state env (subsystem_nqn request) live s1 of
                      (r, s2) \<Rightarrow> (Inr r, s2))) s"

text \<open>
  \<^verbatim>\<open>delete_subsystem\<close>. \<^verbatim>\<open>subsystem_has_listeners\<close> only decides whether a warning is
  logged and is left out. The \<^verbatim>\<open>nsid\<close> read from a stored entry is passed to the
  constructor of \<^verbatim>\<open>namespace_delete_req\<close>, which takes an integer.
\<close>

fun delete_namespaces :: "env \<Rightarrow> string \<Rightarrow> bool \<Rightarrow> json list \<Rightarrow> gw \<Rightarrow> unit res" where
  "delete_namespaces env n live [] s = (Inr (), s)"
| "delete_namespaces env n live (i # ns_list) s =
     (case as_int i of
        Inl e \<Rightarrow> (Inl e, s)
      | Inr nsid' \<Rightarrow>
          (case namespace_delete env \<lparr>subsystem_nqn = n, nsid = nsid', uuid = []\<rparr> live s of
             (Inl e, s1) \<Rightarrow> (Inl e, s1)
           | (Inr ret, s1) \<Rightarrow> delete_namespaces env n live ns_list s1))"

definition delete_subsystem :: "env \<Rightarrow> delete_subsystem_req \<Rightarrow> bool \<Rightarrow> gw \<Rightarrow> reply res" where
  "delete_subsystem env request live s =
     (if is_discovery_nqn env (subsystem_nqn request) then (Inr (req_status EINVAL), s)
      else
        (let ns_list = (if live then get_subsystem_namespaces env (subsystem_nqn request) s
                        else [])
         in if \<not> force request \<and> length ns_list > 0 then (Inr (req_status EBUSY), s)
            else (case delete_namespaces env (subsystem_nqn request) live ns_list s of
                    (Inl e, s1) \<Rightarrow> (Inl e, s1)
                  | (Inr u, s1) \<Rightarrow>
                      execute_grpc_function (delete_subsystem_safe env request live) s1)))"


section \<open>Hosts\<close>

definition remove_host_from_state :: "env \<Rightarrow> string \<Rightarrow> string \<Rightarrow> bool \<Rightarrow> gw \<Rightarrow> reply res" where
  "remove_host_from_state env sub_nqn host live s =
     (if \<not> live then (Inr (req_status 0), s)
      else if \<not> omap_lock_held s then (Inl AssertionError, s)
      else case store env (remove_key (host_key sub_nqn host)) s of
             (Inl ex, s1) \<Rightarrow> (Inr (req_status EINVAL), s1)
           | (Inr u, s1) \<Rightarrow> (Inr (req_status 0), s1))"

definition remove_host_safe :: "env \<Rightarrow> remove_host_req \<Rightarrow> bool \<Rightarrow> gw \<Rightarrow> reply res" where
  "remove_host_safe env request live s =
     (if is_discovery_nqn env (subsystem_nqn request) then (Inr (req_status EINVAL), s)
      else if is_discovery_nqn env (host_nqn request) then (Inr (req_status EINVAL), s)
      else
        with_omap_lock
          (\<lambda>s. case rpc env
                       (if host_nqn request = ''*''
                        then nvmf_subsystem_allow_any_host (subsystem_nqn request) True
                        else nvmf_subsystem_remove_host (subsystem_nqn request)
                               (host_nqn request)) s of
                  (Raises ex, s1) \<Rightarrow>
                    (case remove_host_from_state env (subsystem_nqn request)
                            (host_nqn request) live s1 of
                       (Inl e, s2) \<Rightarrow> (Inl e, s2)
                     | (Inr r, s2) \<Rightarrow> fail_with env ex req_status s2)
                | (Returns ret, s1) \<Rightarrow>
                    if \<not> truthy ret then
                      (case remove_host_from_state env (subsystem_nqn request)
                              (host_nqn request) live s1 of
                         (Inl e, s2) \<Rightarrow> (Inl e, s2)
                       | (Inr r, s2) \<Rightarrow> (Inr (req_status EINVAL), s2))
                    else remove_host_from_state env (subsystem_nqn request)
                           (host_nqn request) live s1) s)"

definition remove_host :: "env \<Rightarrow> remove_host_req \<Rightarrow> bool \<Rightarrow> gw \<Rightarrow> reply res" where
  "remove_host env request live s =
     execute_grpc_function (remove_host_safe env request live) s"

section \<open>Listeners\<close>

text \<open>
  The port is passed to the engine as \<^verbatim>\<open>str(request.trsvcid)\<close>; the call records the
  number it is printed from.
\<close>

definition matching_listener_exists ::
  "bool \<Rightarrow> string \<Rightarrow> string \<Rightarrow> string \<Rightarrow> string \<Rightarrow> int \<Rightarrow> gw \<Rightarrow> bool" where
  "matching_listener_exists live n gw_name tr addr port s =
     (if \<not> live then False
      else case map_of (omap s) (listener_key n gw_name tr addr port) of
             None \<Rightarrow> False
           | Some v \<Rightarrow> v \<noteq> [])"

text \<open>
  The value of \<^verbatim>\<open>enable_ha\<close> and the request as it stands after the block that
  resolves the HA state (the block assigns \<^verbatim>\<open>request.auto_ha_state\<close> when it reads the
  flag from the stored subsystem).
\<close>

definition resolve_ha ::
  "env \<Rightarrow> create_listener_req \<Rightarrow> string \<Rightarrow> gw \<Rightarrow> bool \<times> create_listener_req" where
  "resolve_ha env request ha_key s =
     (if ha_key = ''AUTO_HA_UNSET'' then
        (case map_of (omap s) (subsystem_key (nqn request)) of
           None \<Rightarrow> (False, request)
         | Some subsys_str \<Rightarrow>
             if subsys_str = [] then (False, request)
             else (case loads env subsys_str of
                     Inl e \<Rightarrow> (False, request)
                   | Inr subsys_dict \<Rightarrow>
                       (case subscript subsys_dict ''enable_ha'' of
                          Inl e \<Rightarrow> (False, request)
                        | Inr flag \<Rightarrow>
                            (truthy flag,
                             request\<lparr>auto_ha_state :=
                                AutoHAState_value env
                                  (if truthy flag then ''AUTO_HA_ON'' else ''AUTO_HA_OFF'')\<rparr>))))
      else if ha_key = ''AUTO_HA_OFF'' then (False, request)
      else if ha_key = ''AUTO_HA_ON'' then (True, request)
      else (False, request))"

text \<open>
  The loop \<^verbatim>\<open>for x in range(MAX_ANA_GROUPS)\<close>: the result is \<open>Some\<close> reply when a call
  raised and the handler returned, \<open>None\<close> when the loop ran to its end.
\<close>

fun set_ana_states ::
  "env \<Rightarrow> create_listener_req \<Rightarrow> string \<Rightarrow> string \<Rightarrow> nat list \<Rightarrow> gw \<Rightarrow> (reply option) res" where
  "set_ana_states env request tr af [] s = (Inr None, s)"
| "set_ana_states env request tr af (x # xs) s =
     (case rpc env
             (nvmf_subsystem_listener_set_ana_state (nqn request) ''inaccessible'' tr
                (traddr request) (trsvcid request) af (int x + 1)) s of
        (Raises ex, s1) \<Rightarrow>
          (case failure_status env ex of
             Inl e \<Rightarrow> (Inl e, s1)
           | Inr st \<Rightarrow> (Inr (Some (req_status st)), s1))
      | (Returns ret, s1) \<Rightarrow> set_ana_states env request tr af xs s1)"

definition create_listener_safe :: "env \<Rightarrow> create_listener_req \<Rightarrow> bool \<Rightarrow> gw \<Rightarrow> reply res" where
  "create_listener_safe env request live s =
     (case TransportType_key env (trtype request) of
        None \<Rightarrow> (Inr (req_status ENOKEY), s)
      | Some tr \<Rightarrow>
     (case AddressFamily_key env (adrfam request) of
        None \<Rightarrow> (Inr (req_status ENOKEY), s)
      | Some af \<Rightarrow>
     (case AutoHAState_key env (auto_ha_state request) of
        None \<Rightarrow> (Inr (req_status ENOKEY), s)
      | Some ha_key \<Rightarrow>
      if is_discovery_nqn env (nqn request) then (Inr (req_status EINVAL), s)
      else
        with_omap_lock
          (\<lambda>s. if gateway_name request \<noteq> own_gateway_name env
                then (Inr (req_status ENOENT), s)
                else if matching_listener_exists live (nqn request) (gateway_name request) tr
                          (traddr request) (trsvcid request) s
                then (Inr (req_status EEXIST), s)
                else
                  (case rpc env
                          (nvmf_subsystem_add_listener (nqn request) tr (traddr request)
                             (trsvcid request) af) s of
                     (Raises ex, s1) \<Rightarrow> fail_with env ex req_status s1
                   | (Returns ret, s1) \<Rightarrow>
                       if \<not> truthy ret then (Inr (req_status EINVAL), s1)
                       else
                         (case resolve_ha env request ha_key s1 of
                            (ha, request) \<Rightarrow>
                              (case (if ha
                                     then set_ana_states env request tr af
                                            [0 ..< nat MAX_ANA_GROUPS] s1
                                     else (Inr None, s1)) of
                                 (Inl e, s2) \<Rightarrow> (Inl e, s2)
                               | (Inr (Some failed), s2) \<Rightarrow> (Inr failed, s2)
                               | (Inr None, s2) \<Rightarrow>
                                   if live then
                                     (case store env
                                             (add_key
                                                (listener_key (nqn request)
                                                   (gateway_name request) tr (traddr request)
                                                   (trsvcid request))
                                                (MessageToJson env (listener_msg request))) s2 of
                                        (Inl e, s3) \<Rightarrow> (Inr (req_status EINVAL), s3)
                                      | (Inr u, s3) \<Rightarrow> (Inr (req_status 0), s3))
                                   else (Inr (req_status 0), s2))))) s)))"

definition create_listener :: "env \<Rightarrow> create_listener_req \<Rightarrow> bool \<Rightarrow> gw \<Rightarrow> reply res" where
  "create_listener env request live s =
     execute_grpc_function (create_listener_safe env request live) s"





section \<open>Specification-side notions\<close>

text \<open>
  The definitions of this section are not translations of source functions: they state, in
  the words of the specification, what the theorems below relate the code to.
\<close>

subsection \<open>Reading decimal numerals back\<close>

definition digit_val :: "char \<Rightarrow> nat" where
  "digit_val c = length (takeWhile (\<lambda>d. d \<noteq> c) digit_chars)"

definition read_nat :: "string \<Rightarrow> nat" where
  "read_nat cs = foldl (\<lambda>a c. 10 * a + digit_val c) 0 cs"

subsection \<open>Histories of the cluster context pool\<close>

definition cluster_name :: "nat \<Rightarrow> string" where
  "cluster_name k = ''cluster_context_'' @ show_nat k"

text \<open>
  \<open>pool_run env s h\<close>: the state \<open>s\<close> is reached from the pool that the constructor
  initialised (\<^verbatim>\<open>_init_cluster_context\<close>, which refuses a bound below 1) by
  calls of \<^verbatim>\<open>_get_cluster\<close>, which handed out the names \<open>h\<close> in this order, interleaved
  with arbitrary other activity of the service (which never writes the two pool fields).
\<close>

inductive pool_run :: "env \<Rightarrow> gw \<Rightarrow> string list \<Rightarrow> bool" for env :: env where
  init: "init_cluster_context env s0 = Inr s \<Longrightarrow> pool_run env s []"
| acquired: "pool_run env s h \<Longrightarrow> get_cluster env s = (Inr name, s') \<Longrightarrow>
             pool_run env s' (h @ [name])"
| failed: "pool_run env s h \<Longrightarrow> get_cluster env s = (Inl e, s') \<Longrightarrow> pool_run env s' h"
| other: "pool_run env s h \<Longrightarrow> clusters s' = clusters s \<Longrightarrow>
          current_cluster s' = current_cluster s \<Longrightarrow> pool_run env s' h"

definition pool_inv :: "env \<Rightarrow> gw \<Rightarrow> string list \<Rightarrow> bool" where
  "pool_inv env s h \<longleftrightarrow>
     map fst (clusters s) = map cluster_name [0 ..< length (clusters s)]
   \<and> (\<forall>name cnt. map_of (clusters s) name = Some cnt \<longrightarrow>
         1 \<le> cnt \<and> cnt \<le> bdevs_per_cluster env)
   \<and> (\<forall>cur. current_cluster s = Some cur \<longrightarrow> map_of (clusters s) cur \<noteq> None)
   \<and> (\<forall>name. int (count_list h name) =
         (case map_of (clusters s) name of None \<Rightarrow> 0 | Some cnt \<Rightarrow> cnt))"

subsection \<open>Sample surroundings\<close>

text \<open>
  A concrete environment, parameterised by the engine and by \<^verbatim>\<open>json.loads\<close>, and the
  state of a service that has just started with a given persisted record.
\<close>

definition sample_env ::
  "(event list \<Rightarrow> rpc_call \<Rightarrow> rpc_result) \<Rightarrow> (string \<Rightarrow> json option) \<Rightarrow> env" where
  "sample_env eng lds =
     \<lparr>engine = eng, json_loads = lds, MessageToJson = (\<lambda>m. ''{}''),
      int_of_str = (\<lambda>t. None), py_str = (\<lambda>j. []),
      store_raises = (\<lambda>op m. False),
      DISCOVERY_NQN = ''nqn.2014-08.org.nvmexpress.discovery'',
      own_gateway_name = ''gw1'', min_controller_id = 1, max_controller_id = 65519,
      bdevs_per_cluster = 8, rados_id = None, librbd_core_mask = None,
      randint = 12345, uuid4 = ''0a1b'',
      TransportType_key = (\<lambda>i. if i = 0 then Some ''TCP'' else None),
      AddressFamily_key = (\<lambda>i. if i = 0 then Some ''ipv4'' else None),
      AutoHAState_key =
        (\<lambda>i. if i = 0 then Some ''AUTO_HA_UNSET'' else if i = 1 then Some ''AUTO_HA_OFF''
              else if i = 2 then Some ''AUTO_HA_ON'' else None),
      AutoHAState_value =
        (\<lambda>k. if k = ''AUTO_HA_OFF'' then 1 else if k = ''AUTO_HA_ON'' then 2 else 0),
      qos_limit_type = uint64\<rparr>"

definition started :: "(key \<times> string) list \<Rightarrow> gw" where
  "started m =
     \<lparr>omap = m, trace = [], clusters = [], current_cluster = None, omap_lock_held = False\<rparr>"

definition always :: "json \<Rightarrow> event list \<Rightarrow> rpc_call \<Rightarrow> rpc_result" where
  "always v t c = Returns v"

definition no_json :: "string \<Rightarrow> json option" where
  "no_json t = None"

definition pool_sample :: gw where
  "pool_sample =
     \<lparr>omap = [], trace = [Rpc (bdev_rbd_register_cluster ''cluster_context_0'' None None)],
      clusters = [(''cluster_context_0'', 2)], current_cluster = Some ''cluster_context_0'',
      omap_lock_held = False\<rparr>"

subsection \<open>The error object embedded in an exception text\<close>

text \<open>
  The text that follows the marker \<^verbatim>\<open>Got JSON-RPC error response\<close> and, after it, the
  word \<^verbatim>\<open>response:\<close> (first occurrences), and the JSON value it parses to.
\<close>

definition error_object_text :: "string \<Rightarrow> string option" where
  "error_object_text message =
     (case find_str message json_error_text of
        None \<Rightarrow> None
      | Some i \<Rightarrow>
          (case find_str (drop (i + length json_error_text) message) ''response:'' of
             None \<Rightarrow> None
           | Some j \<Rightarrow>
               Some (drop (j + length ''response:'')
                       (drop (i + length json_error_text) message))))"

definition embedded_error :: "env \<Rightarrow> string \<Rightarrow> json option" where
  "embedded_error env message =
     (case error_object_text message of None \<Rightarrow> None | Some t \<Rightarrow> json_loads env t)"

text \<open>An engine whose block device creation times out; every other call succeeds.\<close>

definition timeout_on_create :: "event list \<Rightarrow> rpc_call \<Rightarrow> rpc_result" where
  "timeout_on_create t c =
     (case c of
        bdev_rbd_create name cl pool img bs u \<Rightarrow>
          Raises (JSONRPCException ''Timeout while waiting for response:'')
      | _ \<Rightarrow> Returns (JBool True))"

subsection \<open>Engine calls of a trace\<close>

fun is_rpc :: "event \<Rightarrow> bool" where
  "is_rpc (Rpc c) = True"
| "is_rpc _ = False"

definition engine_calls :: "gw \<Rightarrow> event list" where
  "engine_calls s = filter is_rpc (trace s)"

subsection \<open>Subsystems named in the persisted record\<close>

text \<open>
  \<open>stored_field env v f\<close> is the field \<open>f\<close> of the stored value \<open>v\<close>, when \<open>v\<close>
  parses to an object that has it. A subsystem NQN appears in the record when an entry
  with the subsystem prefix names it; a serial number is used by another subsystem when
  such an entry carries the serial number under a different NQN. \<open>named_subsystems\<close>
  says that every stored subsystem that has an NQN field has a non-empty one (section 3
  of the specification: the NQN is the subsystem's name). \<open>effective_serial\<close> is the
  serial number the request carries when the uniqueness check runs.
\<close>

definition stored_field :: "env \<Rightarrow> string \<Rightarrow> string \<Rightarrow> json option" where
  "stored_field env v f =
     (case json_loads env v of Some (JObj kvs) \<Rightarrow> map_of kvs f | _ \<Rightarrow> None)"

definition nqn_in_record :: "env \<Rightarrow> gw \<Rightarrow> string \<Rightarrow> bool" where
  "nqn_in_record env s n =
     (\<exists>kv \<in> set (omap s).
        is_subsystem_key (fst kv)
        \<and> stored_field env (snd kv) ''subsystem_nqn'' = Some (JStr n))"

definition serial_used_by_other :: "env \<Rightarrow> gw \<Rightarrow> string \<Rightarrow> string \<Rightarrow> bool" where
  "serial_used_by_other env s serial n =
     (\<exists>kv \<in> set (omap s).
        is_subsystem_key (fst kv)
        \<and> stored_field env (snd kv) ''serial_number'' = Some (JStr serial)
        \<and> (case stored_field env (snd kv) ''subsystem_nqn'' of
              Some (JStr other) \<Rightarrow> other \<noteq> n
            | _ \<Rightarrow> False))"

definition named_subsystems :: "env \<Rightarrow> gw \<Rightarrow> bool" where
  "named_subsystems env s =
     (\<forall>kv \<in> set (omap s).
        is_subsystem_key (fst kv) \<longrightarrow>
        (case stored_field env (snd kv) ''subsystem_nqn'' of
           None \<Rightarrow> True
         | Some j \<Rightarrow> truthy j))"

definition effective_serial :: "env \<Rightarrow> create_subsystem_req \<Rightarrow> string" where
  "effective_serial env request =
     (if serial_number request = [] then ''SPDK'' @ show_int (randint env)
      else serial_number request)"


subsection \<open>A sample record and engine\<close>

definition subsystem_a_text :: string where
  \<open>subsystem_a_text = ''{"subsystem_nqn": "nqn.a", "serial_number": "SPDK1", "enable_ha": true}''\<close>

definition namespace_1_text :: string where
  \<open>namespace_1_text = ''{"subsystem_nqn": "nqn.a", "nsid": 1, "uuid": "0a1b", "anagrpid": 1}''\<close>

definition qos_1_text :: string where
  \<open>qos_1_text = ''{"rw_ios_per_second": "2000", "r_mbytes_per_second": "5"}''\<close>

definition sample_loads :: "string \<Rightarrow> json option" where
  "sample_loads t =
     (if t = subsystem_a_text
      then Some (JObj [(''subsystem_nqn'', JStr ''nqn.a''), (''serial_number'', JStr ''SPDK1''),
                       (''enable_ha'', JBool True)])
      else if t = namespace_1_text
      then Some (JObj [(''subsystem_nqn'', JStr ''nqn.a''), (''nsid'', JInt 1),
                       (''uuid'', JStr ''0a1b''), (''anagrpid'', JInt 1)])
      else if t = qos_1_text
      then Some (JObj [(''rw_ios_per_second'', JStr ''2000''),
                       (''r_mbytes_per_second'', JStr ''5'')])
      else None)"

definition sample_record :: "(key \<times> string) list" where
  "sample_record =
     [(subsystem_key ''nqn.a'', subsystem_a_text),
      (namespace_key ''nqn.a'' (JInt 1), namespace_1_text)]"


definition listing_a :: json where
  "listing_a =
     JArr [JObj [(''nqn'', JStr ''nqn.a''),
                 (''namespaces'',
                  JArr [JObj [(''nsid'', JInt 1), (''uuid'', JStr ''0a1b''),
                              (''bdev_name'', JStr ''bdev_0a1b'')]])]]"

definition sample_engine :: "event list \<Rightarrow> rpc_call \<Rightarrow> rpc_result" where
  "sample_engine t c =
     (case c of
        nvmf_get_subsystems n \<Rightarrow> Returns listing_a
      | nvmf_subsystem_add_ns n b i g u \<Rightarrow> Returns (JInt 1)
      | _ \<Rightarrow> Returns (JBool True))"

definition answering ::
  "rpc_call \<Rightarrow> rpc_result \<Rightarrow> (event list \<Rightarrow> rpc_call \<Rightarrow> rpc_result) \<Rightarrow>
   event list \<Rightarrow> rpc_call \<Rightarrow> rpc_result" where
  "answering c r eng t c' = (if c' = c then r else eng t c')"

subsection \<open>Transactions as run by the facade\<close>

text \<open>
  \<open>entered s\<close> is the state in which \<^verbatim>\<open>execute_grpc_function\<close> starts the body of a
  transaction: both locks taken. \<open>effective_uuid\<close> is the UUID a \<^verbatim>\<open>namespace_add\<close>
  request carries after the function has filled in a missing one.
\<close>

definition effective_uuid :: "env \<Rightarrow> namespace_add_req \<Rightarrow> string" where
  "effective_uuid env request = (if uuid request = [] then uuid4 env else uuid request)"

definition entered :: "gw \<Rightarrow> gw" where
  "entered s = log_event RpcLockAcquire ((log_event OmapLockAcquire s)\<lparr>omap_lock_held := True\<rparr>)"


subsection \<open>Sample requests and failing engines\<close>

definition add_request :: namespace_add_req where
  "add_request =
     \<lparr>subsystem_nqn = ''nqn.a'', nsid = 0, uuid = [], anagrpid = 1,
      rbd_pool_name = ''pool1'', rbd_image_name = ''img1'', block_size = 512\<rparr>"

definition refusing_attach :: env where
  "refusing_attach =
     sample_env
       (answering (nvmf_subsystem_add_ns ''nqn.a'' (JStr ''bdev_0a1b'') (JInt 0) 1 (JStr ''0a1b''))
          (Returns (JBool False)) sample_engine)
       sample_loads"

definition timeout_text :: string where
  "timeout_text = ''Timeout while waiting for response:''"

definition timeout_on_attach :: env where
  "timeout_on_attach =
     sample_env
       (answering (nvmf_subsystem_add_ns ''nqn.a'' (JStr ''bdev_0a1b'') (JInt 0) 1 (JStr ''0a1b''))
          (Raises (JSONRPCException timeout_text)) sample_engine)
       sample_loads"

subsection \<open>Merged QoS limits\<close>

text \<open>
  The rule of section 3 of the specification, stated on the stored record itself.
  \<open>limit_value\<close> is the integer a stored JSON value stands for: a JSON integer is itself, a
  JSON string is the integer that Python's \<^verbatim>\<open>int\<close> reads from it; nothing else is a
  limit. \<open>stored_limit\<close> is the limit a stored QoS record holds for a field. \<open>inherit\<close> is
  the rule: a field set in the request keeps the requested value, an unset field takes
  the previous one. A field of a stored record is \<open>readable\<close> when it is absent, null, or a
  limit within the range of the field's type; \<open>inheritable\<close> says that every field the
  request leaves unset is readable.
\<close>

definition limit_value :: "env \<Rightarrow> json \<Rightarrow> int option" where
  "limit_value env v =
     (case v of JInt n \<Rightarrow> Some n | JStr t \<Rightarrow> int_of_str env t | _ \<Rightarrow> None)"

definition stored_limit :: "env \<Rightarrow> (string \<times> json) list \<Rightarrow> string \<Rightarrow> int option" where
  "stored_limit env kvs f =
     (case map_of kvs f of None \<Rightarrow> None | Some v \<Rightarrow> limit_value env v)"

definition inherit :: "int option \<Rightarrow> int option \<Rightarrow> int option" where
  "inherit requested previous = (case requested of Some v \<Rightarrow> Some v | None \<Rightarrow> previous)"

definition readable :: "env \<Rightarrow> (string \<times> json) list \<Rightarrow> string \<Rightarrow> bool" where
  "readable env kvs f =
     (case map_of kvs f of
        None \<Rightarrow> True
      | Some v \<Rightarrow>
          v = JNull
          \<or> (case limit_value env v of
                None \<Rightarrow> False
              | Some n \<Rightarrow> fits (qos_limit_type env) n))"

definition inheritable :: "env \<Rightarrow> (string \<times> json) list \<Rightarrow> namespace_set_qos_req \<Rightarrow> bool" where
  "inheritable env kvs request =
     ((rw_ios_per_second request = None \<longrightarrow> readable env kvs ''rw_ios_per_second'')
      \<and> (rw_mbytes_per_second request = None \<longrightarrow> readable env kvs ''rw_mbytes_per_second'')
      \<and> (r_mbytes_per_second request = None \<longrightarrow> readable env kvs ''r_mbytes_per_second'')
      \<and> (w_mbytes_per_second request = None \<longrightarrow> readable env kvs ''w_mbytes_per_second''))"

definition merged_limits ::
  "env \<Rightarrow> (string \<times> json) list \<Rightarrow> namespace_set_qos_req \<Rightarrow> namespace_set_qos_req" where
  "merged_limits env kvs request =
     request\<lparr>
       rw_ios_per_second :=
         inherit (rw_ios_per_second request) (stored_limit env kvs ''rw_ios_per_second''),
       rw_mbytes_per_second :=
         inherit (rw_mbytes_per_second request) (stored_limit env kvs ''rw_mbytes_per_second''),
       r_mbytes_per_second :=
         inherit (r_mbytes_per_second request) (stored_limit env kvs ''r_mbytes_per_second''),
       w_mbytes_per_second :=
         inherit (w_mbytes_per_second request) (stored_limit env kvs ''w_mbytes_per_second'')\<rparr>"


text \<open>
  Sample QoS records. \<open>decimal\<close> reads a string of digits as \<^verbatim>\<open>int\<close> does; \<open>render_limits\<close>
  writes the four limits of a QoS request, a dash for an unset one, so that the stored
  text shows the merged values. In \<open>qos_env\<close> the engine accepts everything; in
  \<open>qos_refused\<close> it answers \<open>False\<close> to \<^verbatim>\<open>bdev_set_qos_limit\<close>. \<open>oversized_qos_record\<close>
  holds, for namespace 1, a limit of \<open>2 ^ 64\<close>, which no protobuf integer type holds.
\<close>

definition decimal :: "string \<Rightarrow> int option" where
  "decimal t =
     (if t \<noteq> [] \<and> list_all (\<lambda>c. c \<in> set digit_chars) t then Some (int (read_nat t))
      else None)"

definition show_limit :: "int option \<Rightarrow> string" where
  "show_limit v = (case v of None \<Rightarrow> ''-'' | Some n \<Rightarrow> show_int n)"

definition render_limits :: "message \<Rightarrow> string" where
  "render_limits m =
     (case m of
        namespace_qos_msg r \<Rightarrow>
          show_limit (rw_ios_per_second r) @ '' '' @ show_limit (rw_mbytes_per_second r)
          @ '' '' @ show_limit (r_mbytes_per_second r) @ '' ''
          @ show_limit (w_mbytes_per_second r)
      | _ \<Rightarrow> ''{}'')"

definition oversized_qos_text :: string where
  \<open>oversized_qos_text = ''{"rw_ios_per_second": 18446744073709551616}''\<close>

definition qos_loads :: "string \<Rightarrow> json option" where
  "qos_loads t =
     (if t = oversized_qos_text
      then Some (JObj [(''rw_ios_per_second'', JInt 18446744073709551616)])
      else sample_loads t)"

definition qos_env :: env where
  "qos_env =
     (sample_env sample_engine qos_loads)
       \<lparr>int_of_str := decimal, MessageToJson := render_limits\<rparr>"

definition qos_refused :: env where
  "qos_refused =
     qos_env\<lparr>engine :=
       (\<lambda>t c. case c of
                 bdev_set_qos_limit b a1 a2 a3 a4 \<Rightarrow> Returns (JBool False)
               | _ \<Rightarrow> sample_engine t c)\<rparr>"

definition qos_record :: "(key \<times> string) list" where
  "qos_record = sample_record @ [(namespace_qos_key ''nqn.a'' (JInt 1), qos_1_text)]"

definition oversized_qos_record :: "(key \<times> string) list" where
  "oversized_qos_record =
     sample_record @ [(namespace_qos_key ''nqn.a'' (JInt 1), oversized_qos_text)]"

definition qos_request :: namespace_set_qos_req where
  "qos_request =
     \<lparr>subsystem_nqn = ''nqn.a'', nsid = 1, uuid = [], rw_ios_per_second = None,
      rw_mbytes_per_second = Some 30, r_mbytes_per_second = None,
      w_mbytes_per_second = None\<rparr>"

definition qos_1_fields :: "(string \<times> json) list" where
  "qos_1_fields = [(''rw_ios_per_second'', JStr ''2000''), (''r_mbytes_per_second'', JStr ''5'')]"

subsection \<open>Entries of the persisted record\<close>

definition absent :: "gw \<Rightarrow> key \<Rightarrow> bool" where
  "absent s k = (map_of (omap s) k = None)"



definition detach_refused :: env where
  "detach_refused =
     sample_env
       (answering (nvmf_subsystem_remove_ns ''nqn.a'' (JInt 1)) (Returns (JBool False))
          sample_engine)
       sample_loads"






subsection \<open>Changing the load-balancing group\<close>

text \<open>
  \<open>is_add_ns\<close> recognises the engine's attach call. \<open>quiet_step s s'\<close> says that \<open>s'\<close>
  follows \<open>s\<close> by a step that issues no attach call, writes no entry of the record
  (entries may only disappear) and leaves the lock flag alone. \<open>regroup g\<close> asks to move
  namespace 1 of \<open>nqn.a\<close> to group \<open>g\<close>.
\<close>

fun is_add_ns :: "event \<Rightarrow> bool" where
  "is_add_ns (Rpc (nvmf_subsystem_add_ns n b i g u)) = True"
| "is_add_ns _ = False"

definition only_removes :: "gw \<Rightarrow> gw \<Rightarrow> bool" where
  "only_removes s s' \<longleftrightarrow>
     (\<exists>evs. trace s' = trace s @ evs \<and> (\<forall>e \<in> set evs. \<not> is_add_ns e))
   \<and> (\<forall>k v. map_of (omap s') k = Some v \<longrightarrow> map_of (omap s) k = Some v)"

definition quiet_step :: "gw \<Rightarrow> gw \<Rightarrow> bool" where
  "quiet_step s s' \<longleftrightarrow> only_removes s s' \<and> omap_lock_held s' = omap_lock_held s"

definition regroup :: "int \<Rightarrow> namespace_change_load_balancing_group_req" where
  "regroup g = \<lparr>subsystem_nqn = ''nqn.a'', nsid = 1, uuid = [], anagrpid = g\<rparr>"

subsection \<open>Listeners of an HA subsystem\<close>

text \<open>
  \<open>ana_call request tr af g\<close> is the engine call that sets group \<open>g\<close> of the request's
  listener to \<open>inaccessible\<close>. \<open>listener_request\<close> asks this gateway for a TCP listener of
  \<open>nqn.a\<close>, whose stored record enables HA, and leaves the HA state unset. In \<open>ana_timeout\<close>
  the engine times out on group 2; in \<open>ana_falsy\<close> it answers \<open>False\<close> for group 2.
\<close>

definition ana_call :: "create_listener_req \<Rightarrow> string \<Rightarrow> string \<Rightarrow> int \<Rightarrow> rpc_call" where
  "ana_call request tr af g =
     nvmf_subsystem_listener_set_ana_state (nqn request) ''inaccessible'' tr (traddr request)
       (trsvcid request) af g"

definition listener_request :: create_listener_req where
  "listener_request =
     \<lparr>nqn = ''nqn.a'', gateway_name = ''gw1'', trtype = 0, adrfam = 0, traddr = ''10.0.0.1'',
      trsvcid = 4420, auto_ha_state = 0\<rparr>"

definition ana_timeout :: env where
  "ana_timeout =
     sample_env
       (answering (ana_call listener_request ''TCP'' ''ipv4'' 2)
          (Raises (JSONRPCException timeout_text)) sample_engine)
       sample_loads"

definition ana_falsy :: env where
  "ana_falsy =
     sample_env
       (answering (ana_call listener_request ''TCP'' ''ipv4'' 2)
          (Returns (JBool False)) sample_engine)
       sample_loads"

subsection \<open>Forced deletion of a subsystem\<close>

text \<open>
  \<open>forced_delete\<close> asks to delete \<open>nqn.a\<close> with its namespaces; in \<open>detach_timeout\<close> the
  engine times out on the detachment of namespace 1.
\<close>

definition detach_timeout :: env where
  "detach_timeout =
     sample_env
       (answering (nvmf_subsystem_remove_ns ''nqn.a'' (JInt 1))
          (Raises (JSONRPCException timeout_text)) sample_engine)
       sample_loads"

definition forced_delete :: delete_subsystem_req where
  "forced_delete = \<lparr>subsystem_nqn = ''nqn.a'', force = True\<rparr>"

section \<open>Properties\<close>

subsection \<open>Effects of the primitive steps\<close>

lemma rpc_fields [simp]:
  "clusters (snd (rpc env c s)) = clusters s"
  "current_cluster (snd (rpc env c s)) = current_cluster s"
  "omap (snd (rpc env c s)) = omap s"
  "omap_lock_held (snd (rpc env c s)) = omap_lock_held s"
  "trace (snd (rpc env c s)) = trace s @ [Rpc c]"
  "fst (rpc env c s) = engine env (trace s) c"
  by (simp_all add: rpc_def)

subsection \<open>Decimal rendering is injective\<close>

lemma digit_val_digit: "k < 10 \<Longrightarrow> digit_val (digit_chars ! k) = k"
proof -
  assume "k < 10"
  then have "k = 0 \<or> k = 1 \<or> k = 2 \<or> k = 3 \<or> k = 4 \<or> k = 5 \<or> k = 6 \<or> k = 7 \<or> k = 8 \<or> k = 9"
    by presburger
  then show ?thesis
    by (elim disjE) (simp_all add: digit_val_def digit_chars_def)
qed

lemma read_show_nat: "read_nat (show_nat n) = n"
proof (induction n rule: show_nat.induct)
  case (1 n)
  show ?case
  proof (cases "n < 10")
    case True
    then show ?thesis
      by (subst show_nat.simps) (simp add: read_nat_def digit_val_digit)
  next
    case False
    with 1 have ih: "read_nat (show_nat (n div 10)) = n div 10" by simp
    have "read_nat (show_nat n) =
            10 * read_nat (show_nat (n div 10)) + digit_val (digit_chars ! (n mod 10))"
      using False by (subst show_nat.simps) (simp add: read_nat_def)
    also have "\<dots> = 10 * (n div 10) + n mod 10"
      by (simp add: ih digit_val_digit)
    finally show ?thesis by simp
  qed
qed

lemma show_nat_inj: "show_nat a = show_nat b \<Longrightarrow> a = b"
  by (metis read_show_nat)

lemma cluster_name_inj: "cluster_name a = cluster_name b \<Longrightarrow> a = b"
  by (simp add: cluster_name_def show_nat_inj)

subsection \<open>Cluster context pool\<close>

lemma fresh_cluster_name:
  assumes "map fst cl = map cluster_name [0 ..< length cl]"
  shows "cluster_name (length cl) \<notin> set (map fst cl)"
proof
  assume "cluster_name (length cl) \<in> set (map fst cl)"
  then have "cluster_name (length cl) \<in> cluster_name ` {0 ..< length cl}"
    using assms by simp
  then obtain k where "k < length cl" "cluster_name (length cl) = cluster_name k" by auto
  then show False using cluster_name_inj by fastforce
qed

lemma alloc_cluster_cases:
  "alloc_cluster env s = (r, s') \<Longrightarrow>
     clusters s' = clusters s \<and> current_cluster s' = current_cluster s \<and>
     (\<forall>name. r = Inr name \<longrightarrow> name = cluster_name (length (clusters s)))"
  by (auto simp: alloc_cluster_def cluster_name_def rpc_def Let_def split: rpc_result.splits)

lemma pool_inv_alloc:
  assumes bpc: "1 \<le> bdevs_per_cluster env"
    and inv: "pool_inv env s h"
    and cur: "current_cluster s = None"
    and run: "get_cluster env s = (r, s')"
  shows "pool_inv env s' (case r of Inl e \<Rightarrow> h | Inr name \<Rightarrow> h @ [name])"
proof -
  obtain ra s1 where a: "alloc_cluster env s = (ra, s1)" by (cases "alloc_cluster env s")
  note f = alloc_cluster_cases [OF a]
  show ?thesis
  proof (cases ra)
    case (Inl e)
    with a cur run have "r = Inl e" "s' = s1" by (simp_all add: get_cluster.simps)
    with inv f cur show ?thesis by (simp add: pool_inv_def)
  next
    case (Inr name)
    with f have name: "name = cluster_name (length (clusters s))" by simp
    from Inr a cur run have r: "r = Inr name"
      and s': "s' = s1\<lparr>current_cluster := Some name,
                       clusters := AList.update name 1 (clusters s1)\<rparr>"
      by (simp_all add: get_cluster.simps)
    from inv have keys: "map fst (clusters s) = map cluster_name [0 ..< length (clusters s)]"
      by (simp add: pool_inv_def)
    have fresh: "name \<notin> set (map fst (clusters s))"
      unfolding name by (rule fresh_cluster_name [OF keys])
    then have none: "map_of (clusters s) name = None"
      by (simp add: map_of_eq_None_iff)
    from fresh have k2:
      "map fst (AList.update name 1 (clusters s)) = map fst (clusters s) @ [name]"
      by (simp add: update_keys)
    have len: "length (AList.update name 1 (clusters s)) = Suc (length (clusters s))"
      using arg_cong [OF k2, of length] by simp
    have cnt: "\<forall>n. int (count_list h n) =
                 (case map_of (clusters s) n of None \<Rightarrow> 0 | Some c \<Rightarrow> c)"
      using inv by (simp add: pool_inv_def)
    have bnd: "\<forall>n c. map_of (clusters s) n = Some c \<longrightarrow> 1 \<le> c \<and> c \<le> bdevs_per_cluster env"
      using inv by (simp add: pool_inv_def)
    show ?thesis
      unfolding pool_inv_def r s'
      using f k2 len keys name bpc none cnt bnd
      by (auto simp: update_conv' split: option.splits)
  qed
qed

lemma pool_inv_step:
  assumes bpc: "1 \<le> bdevs_per_cluster env"
  shows "pool_inv env s h \<Longrightarrow> get_cluster env s = (r, s') \<Longrightarrow>
         pool_inv env s' (case r of Inl e \<Rightarrow> h | Inr name \<Rightarrow> h @ [name])"
  using bpc
proof (induction env s arbitrary: r s' rule: get_cluster.induct)
  case (1 env s)
  note inv = "1.prems"(1) and run = "1.prems"(2) and bpc = "1.prems"(3)
  show ?case
  proof (cases "current_cluster s")
    case None
    then show ?thesis by (rule pool_inv_alloc [OF bpc inv _ run])
  next
    case (Some cur)
    with inv obtain n where n: "map_of (clusters s) cur = Some n"
      by (auto simp: pool_inv_def)
    show ?thesis
    proof (cases "n \<ge> bdevs_per_cluster env")
      case True
      have inv': "pool_inv env (s\<lparr>current_cluster := None\<rparr>) h"
        using inv by (simp add: pool_inv_def)
      have run': "get_cluster env (s\<lparr>current_cluster := None\<rparr>) = (r, s')"
        using run Some n True by (subst (asm) get_cluster.simps) simp
      show ?thesis
        by (rule "1.IH" [OF Some n True inv' run' bpc])
    next
      case False
      have r: "r = Inr cur"
        and s': "s' = s\<lparr>clusters := AList.update cur (n + 1) (clusters s)\<rparr>"
        using run Some n False by (simp_all add: get_cluster.simps)
      have mem: "cur \<in> fst ` set (clusters s)"
        using n by (force dest: map_of_SomeD)
      have keys: "map fst (AList.update cur (n + 1) (clusters s)) = map fst (clusters s)"
        using mem by (simp add: update_keys)
      have len: "length (AList.update cur (n + 1) (clusters s)) = length (clusters s)"
        using arg_cong [OF keys, of length] by simp
      have cnt: "\<forall>m. int (count_list h m) =
                   (case map_of (clusters s) m of None \<Rightarrow> 0 | Some c \<Rightarrow> c)"
        using inv by (simp add: pool_inv_def)
      have bnd: "\<forall>m c. map_of (clusters s) m = Some c \<longrightarrow>
                   1 \<le> c \<and> c \<le> bdevs_per_cluster env"
        using inv by (simp add: pool_inv_def)
      have k0: "map fst (clusters s) = map cluster_name [0 ..< length (clusters s)]"
        using inv by (simp add: pool_inv_def)
      have cur0: "\<forall>c. current_cluster s = Some c \<longrightarrow> map_of (clusters s) c \<noteq> None"
        using inv by (simp add: pool_inv_def)
      have n0: "0 \<le> n" using bnd n by force
      show ?thesis
        unfolding pool_inv_def r s'
        using len keys k0 cnt bnd cur0 n n0 False Some
        by (auto simp: update_conv' split: option.splits)
    qed
  qed
qed

lemma pool_run_bound: "pool_run env s h \<Longrightarrow> 1 \<le> bdevs_per_cluster env"
  by (induction rule: pool_run.induct) (auto simp: init_cluster_context_def split: if_splits)

lemma pool_run_inv: "pool_run env s h \<Longrightarrow> pool_inv env s h"
proof (induction rule: pool_run.induct)
  case (init s0 s)
  then show ?case by (auto simp: pool_inv_def init_cluster_context_def split: if_splits)
next
  case (acquired s h name s')
  from pool_inv_step [OF pool_run_bound [OF acquired.hyps(1)] acquired.IH acquired.hyps(2)]
  show ?case by simp
next
  case (failed s h e s')
  from pool_inv_step [OF pool_run_bound [OF failed.hyps(1)] failed.IH failed.hyps(2)]
  show ?case by simp
next
  case (other s h s')
  then show ?case by (simp add: pool_inv_def)
qed

lemma length_update_ge: "length al \<le> length (AList.update k v al)"
  using arg_cong [OF update_keys [of k v al], of length] by (simp split: if_splits)

lemma get_cluster_grows: "length (clusters s) \<le> length (clusters (snd (get_cluster env s)))"
proof (induction env s rule: get_cluster.induct)
  case (1 env s)
  show ?case
  proof (cases "current_cluster s")
    case None
    obtain ra s1 where a: "alloc_cluster env s = (ra, s1)" by (cases "alloc_cluster env s")
    from alloc_cluster_cases [OF a] have "clusters s1 = clusters s" by simp
    with None a show ?thesis
      by (cases ra) (simp_all add: get_cluster.simps length_update_ge)
  next
    case (Some cur)
    show ?thesis
    proof (cases "map_of (clusters s) cur")
      case None
      with Some show ?thesis by (simp add: get_cluster.simps)
    next
      case (Some n)
      show ?thesis
      proof (cases "n \<ge> bdevs_per_cluster env")
        case True
        from "1.IH" [OF \<open>current_cluster s = Some cur\<close> Some True]
        show ?thesis
          using \<open>current_cluster s = Some cur\<close> Some True
          by (subst get_cluster.simps) simp
      next
        case False
        then show ?thesis
          using \<open>current_cluster s = Some cur\<close> Some
          by (simp add: get_cluster.simps length_update_ge)
      qed
    qed
  qed
qed

text \<open>
  Claim C9. Along every sequence of cluster-context acquisitions that starts from the
  initialised, empty pool, each context's volume counter stays between 1 and
  \<^verbatim>\<open>bdevs_per_cluster\<close>; the counter of a name equals the number of times the name was
  handed out, so no name is handed out more than \<^verbatim>\<open>bdevs_per_cluster\<close> times; the k-th
  context allocated is named \<^verbatim>\<open>cluster_context_k\<close>, counting from 0, so the names are
  pairwise distinct; and an acquisition never removes a context.
\<close>

theorem cluster_pool_bounded_sequential:
  assumes "pool_run env s h"
  shows "(\<forall>name cnt. map_of (clusters s) name = Some cnt \<longrightarrow>
            1 \<le> cnt \<and> cnt \<le> bdevs_per_cluster env)
       \<and> (\<forall>name. int (count_list h name) =
            (case map_of (clusters s) name of None \<Rightarrow> 0 | Some cnt \<Rightarrow> cnt))
       \<and> (\<forall>name. int (count_list h name) \<le> bdevs_per_cluster env)
       \<and> map fst (clusters s) = map cluster_name [0 ..< length (clusters s)]
       \<and> distinct (map fst (clusters s))
       \<and> length (clusters s) \<le> length (clusters (snd (get_cluster env s)))"
proof -
  from assms have inv: "pool_inv env s h" by (rule pool_run_inv)
  from assms have bpc: "1 \<le> bdevs_per_cluster env" by (rule pool_run_bound)
  have bnd: "\<forall>name cnt. map_of (clusters s) name = Some cnt \<longrightarrow>
               1 \<le> cnt \<and> cnt \<le> bdevs_per_cluster env"
    using inv by (simp add: pool_inv_def)
  have cnt: "\<forall>name. int (count_list h name) =
               (case map_of (clusters s) name of None \<Rightarrow> 0 | Some cnt \<Rightarrow> cnt)"
    using inv by (simp add: pool_inv_def)
  have keys: "map fst (clusters s) = map cluster_name [0 ..< length (clusters s)]"
    using inv by (simp add: pool_inv_def)
  have le: "\<forall>name. int (count_list h name) \<le> bdevs_per_cluster env"
  proof
    fix name
    show "int (count_list h name) \<le> bdevs_per_cluster env"
    proof (cases "map_of (clusters s) name")
      case None
      with cnt have "int (count_list h name) = 0" by simp
      with bpc show ?thesis by simp
    next
      case (Some c)
      with cnt have "int (count_list h name) = c" by simp
      with bnd Some show ?thesis by simp
    qed
  qed
  have "inj_on cluster_name (set [0 ..< length (clusters s)])"
    by (rule inj_onI) (rule cluster_name_inj)
  then have dist: "distinct (map fst (clusters s))"
    by (subst keys) (simp add: distinct_map)
  from bnd cnt le keys dist get_cluster_grows show ?thesis by blast
qed

lemma show_nat_0: "show_nat 0 = ''0''"
  by (simp add: show_nat.simps digit_chars_def)

theorem cluster_pool_witness:
  "pool_run (sample_env (always JNull) no_json) pool_sample
     [''cluster_context_0'', ''cluster_context_0'']
   \<and> distinct (map fst (clusters pool_sample))
   \<and> int (count_list [''cluster_context_0'', ''cluster_context_0''] ''cluster_context_0'') \<le> 8"
proof -
  let ?E = "sample_env (always JNull) no_json"
  let ?s1 = "\<lparr>omap = [],
      trace = [Rpc (bdev_rbd_register_cluster ''cluster_context_0'' None None)],
      clusters = [(''cluster_context_0'', 1)], current_cluster = Some ''cluster_context_0'',
      omap_lock_held = False\<rparr>"
  have i: "init_cluster_context ?E (started []) = Inr (started [])"
    by (simp add: init_cluster_context_def sample_env_def started_def)
  have a1: "get_cluster ?E (started []) = (Inr ''cluster_context_0'', ?s1)"
    by (simp add: get_cluster.simps alloc_cluster_def rpc_def sample_env_def started_def
        always_def show_nat_0 Let_def)
  have a2: "get_cluster ?E ?s1 = (Inr ''cluster_context_0'', pool_sample)"
    by (simp add: get_cluster.simps sample_env_def pool_sample_def)
  have run: "pool_run ?E pool_sample ([''cluster_context_0''] @ [''cluster_context_0''])"
    using pool_run.acquired [OF pool_run.acquired [OF pool_run.init [OF i] a1] a2] by simp
  then have run': "pool_run ?E pool_sample [''cluster_context_0'', ''cluster_context_0'']"
    by simp
  from cluster_pool_bounded_sequential [OF run'] have
    "distinct (map fst (clusters pool_sample))"
    "int (count_list [''cluster_context_0'', ''cluster_context_0''] ''cluster_context_0'')
       \<le> bdevs_per_cluster ?E"
    by blast+
  with run' show ?thesis by (simp add: sample_env_def)
qed

subsection \<open>Error translator\<close>

lemma parse_unbound:
  "embedded_error env message = None \<Longrightarrow>
   parse_json_exeption env (JSONRPCException message) = Inl UnboundLocalError"
  by (auto simp: parse_json_exeption_def embedded_error_def error_object_text_def Let_def
      split: option.splits)

lemma fail_with_state [simp]: "snd (fail_with env ex mk s) = s"
  by (simp add: fail_with_def split: sum.splits)

text \<open>
  What the translator does on the inputs it was written for: a structured error object
  yields its code with the sign dropped, an exception of another class yields
  \<open>EINVAL\<close>.
\<close>

lemma failure_status_structured:
  assumes "embedded_error env message = Some (JObj kvs)"
    and "map_of kvs ''code'' = Some (JInt c)"
    and "map_of kvs ''message'' = Some m"
  shows "failure_status env (JSONRPCException message) = Inr (if c < 0 then - c else c)"
  using assms
  by (auto simp: failure_status_def parse_json_exeption_def embedded_error_def
      error_object_text_def Let_def update_conv' split: option.splits)

lemma failure_status_other: "failure_status env (OtherError m) = Inr EINVAL"
  by (simp add: failure_status_def parse_json_exeption_def)

text \<open>
  Claim C2 says that an engine failure whose text holds no structured error object
  yields no parsed response and status \<open>EINVAL\<close>. The code does not: for a
  \<^verbatim>\<open>JSONRPCException\<close> whose text has no parsable object after the markers, the
  variable \<^verbatim>\<open>resp\<close> is never bound (the source initialises \<^verbatim>\<open>rsp\<close>), the
  translator raises \<^verbatim>\<open>UnboundLocalError\<close>, and the exception escapes the handler of the
  calling operation, here \<^verbatim>\<open>create_bdev\<close>.
\<close>

theorem translator_unbound_on_unstructured_error:
  assumes "embedded_error env message = None"
  shows "parse_json_exeption env (JSONRPCException message) = Inl UnboundLocalError
       \<and> failure_status env (JSONRPCException message) = Inl UnboundLocalError
       \<and> (\<forall>c s1. get_cluster env s = (Inr c, s1) \<and>
              engine env (trace s1) (bdev_rbd_create name c pool img bs u)
                = Raises (JSONRPCException message)
            \<longrightarrow> fst (create_bdev env name u pool img bs s) = Inl UnboundLocalError)"
  using parse_unbound [OF assms]
  by (auto simp: failure_status_def create_bdev_def fail_with_def rpc_def)

lemma error_object_text_timeout:
  "error_object_text ''Timeout while waiting for response:'' = None"
  by (simp add: error_object_text_def json_error_text_def)

theorem translator_unbound_witness:
  "embedded_error (sample_env timeout_on_create no_json)
      ''Timeout while waiting for response:'' = None
   \<and> fst (create_bdev (sample_env timeout_on_create no_json) ''bdev_0a1b'' ''0a1b'' ''pool1''
            ''img1'' 512 (started [])) = Inl UnboundLocalError"
proof -
  let ?E = "sample_env timeout_on_create no_json"
  let ?m = "''Timeout while waiting for response:''"
  let ?s1 = "\<lparr>omap = [],
      trace = [Rpc (bdev_rbd_register_cluster ''cluster_context_0'' None None)],
      clusters = [(''cluster_context_0'', 1)], current_cluster = Some ''cluster_context_0'',
      omap_lock_held = False\<rparr>"
  have e: "embedded_error ?E ?m = None"
    by (simp add: embedded_error_def error_object_text_timeout)
  have g: "get_cluster ?E (started []) = (Inr ''cluster_context_0'', ?s1)"
    by (simp add: get_cluster.simps alloc_cluster_def rpc_def sample_env_def started_def
        timeout_on_create_def show_nat_0 Let_def)
  have r: "engine ?E (trace ?s1)
             (bdev_rbd_create ''bdev_0a1b'' ''cluster_context_0'' ''pool1'' ''img1'' 512 ''0a1b'')
           = Raises (JSONRPCException ?m)"
    by (simp add: sample_env_def timeout_on_create_def)
  from translator_unbound_on_unstructured_error
         [OF e, of "started []" "''bdev_0a1b''" "''pool1''" "''img1''" 512 "''0a1b''"] g r
  have "fst (create_bdev ?E ''bdev_0a1b'' ''0a1b'' ''pool1'' ''img1'' 512 (started []))
          = Inl UnboundLocalError"
    by blast
  with e show ?thesis by simp
qed

subsection \<open>Namespace lookup without an identifier\<close>

lemma find_unaddressed:
  "i \<le> 0 \<Longrightarrow> find_namespace_and_bdev_name env n i [] lk s = (Inr (JNull, JNull), s)"
  by (simp add: find_namespace_and_bdev_name_def)

lemmas lock_defs = execute_grpc_function_def execute_omap_locking_function_def
  grpc_function_with_lock_def with_omap_lock_def with_rpc_lock_def log_event_def

text \<open>
  Claim C10. Each of the five operations that resolve a namespace by identifier
  (\<^verbatim>\<open>namespace_delete\<close>, \<^verbatim>\<open>namespace_resize\<close>, \<^verbatim>\<open>namespace_get_io_stats\<close>,
  \<^verbatim>\<open>namespace_set_qos_limits\<close>, \<^verbatim>\<open>namespace_change_load_balancing_group\<close>) answers a
  request with NSID at most 0 and an empty UUID with status \<open>ENODEV\<close>; no engine call
  is made (no mutation in particular) and the persisted record is left as it was.
\<close>

theorem unaddressed_namespace_is_enodev:
  assumes "i \<le> 0"
  shows
   "(case namespace_delete env \<lparr>subsystem_nqn = n, nsid = i, uuid = []\<rparr> live s of
       (r, s') \<Rightarrow> r = Inr (req_status ENODEV) \<and> engine_calls s' = engine_calls s
                   \<and> omap s' = omap s)
  \<and> (case namespace_resize env \<lparr>subsystem_nqn = n, nsid = i, uuid = [], new_size = sz\<rparr>
            live s of
       (r, s') \<Rightarrow> r = Inr (req_status ENODEV) \<and> engine_calls s' = engine_calls s
                   \<and> omap s' = omap s)
  \<and> (case namespace_get_io_stats env \<lparr>subsystem_nqn = n, nsid = i, uuid = []\<rparr> live s of
       (r, s') \<Rightarrow> r = Inr (namespace_io_stats_info ENODEV [])
                   \<and> engine_calls s' = engine_calls s \<and> omap s' = omap s)
  \<and> (case namespace_set_qos_limits env
            \<lparr>subsystem_nqn = n, nsid = i, uuid = [], rw_ios_per_second = q1,
             rw_mbytes_per_second = q2, r_mbytes_per_second = q3,
             w_mbytes_per_second = q4\<rparr> live s of
       (r, s') \<Rightarrow> r = Inr (req_status ENODEV) \<and> engine_calls s' = engine_calls s
                   \<and> omap s' = omap s)
  \<and> (case namespace_change_load_balancing_group env
            \<lparr>subsystem_nqn = n, nsid = i, uuid = [], anagrpid = g\<rparr> live s of
       (r, s') \<Rightarrow> r = Inr (req_status ENODEV) \<and> engine_calls s' = engine_calls s
                   \<and> omap s' = omap s)"
  using assms
  by (simp add: namespace_delete_def namespace_delete_safe_def namespace_resize_def
      namespace_get_io_stats_def namespace_set_qos_limits_def
      namespace_set_qos_limits_safe_def namespace_change_load_balancing_group_def
      namespace_change_load_balancing_group_safe_def find_unaddressed lock_defs
      engine_calls_def)

theorem unaddressed_namespace_witness:
  "(0::int) \<le> 0
   \<and> fst (namespace_delete (sample_env (always (JBool True)) no_json)
            \<lparr>subsystem_nqn = ''nqn.a'', nsid = 0, uuid = []\<rparr> True (started []))
       = Inr (req_status 19)
   \<and> engine_calls (snd (namespace_delete (sample_env (always (JBool True)) no_json)
            \<lparr>subsystem_nqn = ''nqn.a'', nsid = 0, uuid = []\<rparr> True (started []))) = []"
  using unaddressed_namespace_is_enodev [where i = 0
          and env = "sample_env (always (JBool True)) no_json" and n = "''nqn.a''"
          and live = True and s = "started []"]
  by (simp add: ENODEV_def engine_calls_def started_def case_prod_beta)

subsection \<open>Duplicate subsystems\<close>

lemma py_eq_str_iff: "py_eq_str t j \<longleftrightarrow> j = JStr t"
  by (cases j) auto

lemma loads_subscript:
  "(case loads env v of
      Inl e \<Rightarrow> a
    | Inr subsys \<Rightarrow> (case subscript subsys f of Inl e \<Rightarrow> a | Inr x \<Rightarrow> b x))
   = (case stored_field env v f of None \<Rightarrow> a | Some x \<Rightarrow> b x)"
  by (simp add: loads_def stored_field_def split: option.split json.split)

lemma subsystem_scan_Cons:
  "subsystem_scan env n (kv # st) =
     ((is_subsystem_key (fst kv) \<and> stored_field env (snd kv) ''subsystem_nqn'' = Some (JStr n))
      \<or> subsystem_scan env n st)"
  by (cases kv) (auto simp: loads_subscript py_eq_str_iff split: option.split)

lemma subsystem_scan_iff:
  "subsystem_scan env n st \<longleftrightarrow>
     (\<exists>kv \<in> set st. is_subsystem_key (fst kv)
                     \<and> stored_field env (snd kv) ''subsystem_nqn'' = Some (JStr n))"
  by (induction st) (simp_all add: subsystem_scan_Cons del: subsystem_scan.simps(2))

lemma serial_scan_Cons:
  "serial_scan env serial (kv # st) =
     (if is_subsystem_key (fst kv)
         \<and> stored_field env (snd kv) ''serial_number'' = Some (JStr serial)
      then (case stored_field env (snd kv) ''subsystem_nqn'' of
              None \<Rightarrow> serial_scan env serial st
            | Some owner \<Rightarrow> owner)
      else serial_scan env serial st)"
proof -
  obtain k v where kv: "kv = (k, v)" by (cases kv)
  have 1: "(case subscript subsys ''subsystem_nqn'' of Inl e \<Rightarrow> a | Inr x \<Rightarrow> x)
         = (case stored_field env v ''subsystem_nqn'' of None \<Rightarrow> a | Some x \<Rightarrow> x)"
    if "json_loads env v = Some subsys" for subsys a
    using that by (cases subsys) (simp_all add: stored_field_def split: option.split)
  show ?thesis
    unfolding kv
    by (cases "json_loads env v"; cases "the (json_loads env v)")
       (simp_all add: loads_def stored_field_def py_eq_str_iff split: option.split)
qed


lemma serial_scan_truthy:
  assumes "\<forall>kv \<in> set st. is_subsystem_key (fst kv) \<longrightarrow>
             (case stored_field env (snd kv) ''subsystem_nqn'' of
                None \<Rightarrow> True | Some j \<Rightarrow> truthy j)"
    and "\<exists>kv \<in> set st. is_subsystem_key (fst kv)
           \<and> stored_field env (snd kv) ''serial_number'' = Some (JStr serial)
           \<and> (case stored_field env (snd kv) ''subsystem_nqn'' of
                 Some (JStr other) \<Rightarrow> other \<noteq> n
               | _ \<Rightarrow> False)"
  shows "truthy (serial_scan env serial st)"
  using assms
proof (induction st)
  case Nil
  then show ?case by simp
next
  case (Cons kv st)
  show ?case
  proof (cases "is_subsystem_key (fst kv)
                \<and> stored_field env (snd kv) ''serial_number'' = Some (JStr serial)")
    case True
    show ?thesis
    proof (cases "stored_field env (snd kv) ''subsystem_nqn''")
      case None
      with Cons.prems(2) True have
        "\<exists>kv \<in> set st. is_subsystem_key (fst kv)
           \<and> stored_field env (snd kv) ''serial_number'' = Some (JStr serial)
           \<and> (case stored_field env (snd kv) ''subsystem_nqn'' of
                 Some (JStr other) \<Rightarrow> other \<noteq> n
               | _ \<Rightarrow> False)"
        by auto
      with Cons.IH Cons.prems(1) have "truthy (serial_scan env serial st)" by simp
      with True None show ?thesis by (simp add: serial_scan_Cons del: serial_scan.simps(2))
    next
      case (Some owner)
      with Cons.prems(1) True have "truthy owner" by simp
      with True Some show ?thesis by (simp add: serial_scan_Cons del: serial_scan.simps(2))
    qed
  next
    case False
    with Cons.prems(2) have
        "\<exists>kv \<in> set st. is_subsystem_key (fst kv)
           \<and> stored_field env (snd kv) ''serial_number'' = Some (JStr serial)
           \<and> (case stored_field env (snd kv) ''subsystem_nqn'' of
                 Some (JStr other) \<Rightarrow> other \<noteq> n
               | _ \<Rightarrow> False)"
      by auto
    with Cons.IH Cons.prems(1) have "truthy (serial_scan env serial st)" by simp
    then show ?thesis by (subst serial_scan_Cons, subst if_not_P [OF False])
  qed
qed

text \<open>
  Claim C4, as amended. A live-mode \<^verbatim>\<open>create_subsystem\<close> request that reaches the
  uniqueness check (it passed the validation that precedes it: the NQN is not the
  discovery NQN, HA is not requested without ANA reporting, the configured controller id
  range is not empty) and whose NQN already appears in the persisted record, or whose
  serial number is used there by a subsystem with a different NQN while every stored
  subsystem that has an NQN has a non-empty one, returns \<open>EEXIST\<close>; no engine call is made
  and the persisted record is unchanged.
\<close>

theorem duplicate_subsystem_is_rejected:
  assumes valid: "\<not> is_discovery_nqn env (subsystem_nqn request)"
      "enable_ha request \<longrightarrow> ana_reporting request"
      "min_controller_id env \<le> max_controller_id env"
    and dup: "nqn_in_record env s (subsystem_nqn request)
       \<or> (named_subsystems env s
          \<and> serial_used_by_other env s (effective_serial env request) (subsystem_nqn request))"
  shows "case create_subsystem env request True s of
           (r, s') \<Rightarrow> r = Inr (req_status EEXIST) \<and> engine_calls s' = engine_calls s
                       \<and> omap s' = omap s"
proof -
  let ?rq = "if serial_number request = []
             then request\<lparr>serial_number := ''SPDK'' @ show_int (randint env)\<rparr> else request"
  have nq: "subsystem_nqn ?rq = subsystem_nqn request" by simp
  have sr: "serial_number ?rq = effective_serial env request"
    by (simp add: effective_serial_def)
  have rejected: "subsystem_already_exists env True (subsystem_nqn ?rq) t
        \<or> truthy (serial_number_already_used env True (serial_number ?rq) t)"
    if "omap t = omap s" for t
  proof -
    from dup show ?thesis
    proof
      assume "nqn_in_record env s (subsystem_nqn request)"
      then have "subsystem_already_exists env True (subsystem_nqn ?rq) t"
        unfolding nq by (simp add: subsystem_already_exists_def subsystem_scan_iff nqn_in_record_def that)
      then show ?thesis ..
    next
      assume a: "named_subsystems env s
          \<and> serial_used_by_other env s (effective_serial env request) (subsystem_nqn request)"
      have "truthy (serial_scan env (effective_serial env request) (omap s))"
        by (rule serial_scan_truthy [where n = "subsystem_nqn request"])
           (use a in \<open>simp_all add: named_subsystems_def serial_used_by_other_def\<close>)
      then have "truthy (serial_number_already_used env True (serial_number ?rq) t)"
        unfolding sr by (simp add: serial_number_already_used_def that)
      then show ?thesis ..
    qed
  qed
  have ha: "\<not> (enable_ha request \<and> \<not> ana_reporting request)"
    using valid(2) by blast
  have cn: "\<not> max_controller_id env < min_controller_id env"
    using valid(3) by simp
  show ?thesis
    using rejected
    by (simp add: create_subsystem_def create_subsystem_safe_def lock_defs engine_calls_def
        Let_def valid(1) ha cn)
qed


text \<open>
  Claim C4 as stated fails. A live \<^verbatim>\<open>create_subsystem\<close> for an NQN that is already in
  the record, with HA enabled and ANA reporting disabled, is refused by the validation
  that precedes the uniqueness check: the status is \<open>EINVAL\<close>, not \<open>EEXIST\<close>.
\<close>

theorem duplicate_invalid_counterexample:
  "nqn_in_record (sample_env (always (JBool True)) sample_loads) (started sample_record) ''nqn.a''
   \<and> fst (create_subsystem (sample_env (always (JBool True)) sample_loads)
            \<lparr>subsystem_nqn = ''nqn.a'', serial_number = ''SPDK9'', max_namespaces = 256,
             ana_reporting = False, enable_ha = True\<rparr> True (started sample_record))
       = Inr (req_status 22)"
  by (simp add: nqn_in_record_def started_def sample_record_def stored_field_def
      sample_env_def sample_loads_def create_subsystem_def create_subsystem_safe_def
      lock_defs is_discovery_nqn_def EINVAL_def)

text \<open>
  Both ways of being a duplicate: the NQN \<open>nqn.a\<close> of the stored subsystem, and its serial
  number \<open>SPDK1\<close> requested for another NQN.
\<close>

theorem duplicate_subsystem_witness:
  "nqn_in_record (sample_env (always (JBool True)) sample_loads) (started sample_record) ''nqn.a''
   \<and> fst (create_subsystem (sample_env (always (JBool True)) sample_loads)
            \<lparr>subsystem_nqn = ''nqn.a'', serial_number = [], max_namespaces = 256,
             ana_reporting = True, enable_ha = True\<rparr> True (started sample_record))
       = Inr (req_status 17)
   \<and> \<not> nqn_in_record (sample_env (always (JBool True)) sample_loads) (started sample_record)
         ''nqn.b''
   \<and> named_subsystems (sample_env (always (JBool True)) sample_loads) (started sample_record)
   \<and> serial_used_by_other (sample_env (always (JBool True)) sample_loads)
        (started sample_record) ''SPDK1'' ''nqn.b''
   \<and> fst (create_subsystem (sample_env (always (JBool True)) sample_loads)
            \<lparr>subsystem_nqn = ''nqn.b'', serial_number = ''SPDK1'', max_namespaces = 256,
             ana_reporting = True, enable_ha = False\<rparr> True (started sample_record))
       = Inr (req_status 17)
   \<and> engine_calls (snd (create_subsystem (sample_env (always (JBool True)) sample_loads)
            \<lparr>subsystem_nqn = ''nqn.b'', serial_number = ''SPDK1'', max_namespaces = 256,
             ana_reporting = True, enable_ha = False\<rparr> True (started sample_record)))
       = []"
proof -
  let ?E = "sample_env (always (JBool True)) sample_loads"
  let ?s = "started sample_record"
  let ?rq = "\<lparr>subsystem_nqn = ''nqn.a'', serial_number = [], max_namespaces = 256,
             ana_reporting = True, enable_ha = True\<rparr>"
  let ?rb = "\<lparr>subsystem_nqn = ''nqn.b'', serial_number = ''SPDK1'', max_namespaces = 256,
             ana_reporting = True, enable_ha = False\<rparr>"
  have d: "nqn_in_record ?E ?s ''nqn.a''"
    by (simp add: nqn_in_record_def started_def sample_record_def stored_field_def
        sample_env_def sample_loads_def)
  have nb: "\<not> nqn_in_record ?E ?s ''nqn.b''"
    by (simp add: nqn_in_record_def started_def sample_record_def stored_field_def
        sample_env_def sample_loads_def subsystem_a_text_def namespace_1_text_def)
  have nm: "named_subsystems ?E ?s"
    by (simp add: named_subsystems_def started_def sample_record_def stored_field_def
        sample_env_def sample_loads_def subsystem_a_text_def namespace_1_text_def)
  have su: "serial_used_by_other ?E ?s ''SPDK1'' ''nqn.b''"
    by (simp add: serial_used_by_other_def started_def sample_record_def stored_field_def
        sample_env_def sample_loads_def)
  have v: "\<not> is_discovery_nqn ?E (subsystem_nqn ?rq)"
      "enable_ha ?rq \<longrightarrow> ana_reporting ?rq"
      "min_controller_id ?E \<le> max_controller_id ?E"
    by (simp_all add: is_discovery_nqn_def sample_env_def)
  have vb: "\<not> is_discovery_nqn ?E (subsystem_nqn ?rb)"
      "enable_ha ?rb \<longrightarrow> ana_reporting ?rb"
      "min_controller_id ?E \<le> max_controller_id ?E"
    by (simp_all add: is_discovery_nqn_def sample_env_def)
  from d have d': "nqn_in_record ?E ?s (subsystem_nqn ?rq)
       \<or> (named_subsystems ?E ?s
          \<and> serial_used_by_other ?E ?s (effective_serial ?E ?rq) (subsystem_nqn ?rq))"
    by simp
  from nm su have db: "nqn_in_record ?E ?s (subsystem_nqn ?rb)
       \<or> (named_subsystems ?E ?s
          \<and> serial_used_by_other ?E ?s (effective_serial ?E ?rb) (subsystem_nqn ?rb))"
    by (simp add: effective_serial_def)
  have e0: "engine_calls ?s = []" by (simp add: engine_calls_def started_def)
  from duplicate_subsystem_is_rejected [OF v d']
  have a: "fst (create_subsystem ?E ?rq True ?s) = Inr (req_status 17)"
    by (simp add: case_prod_beta EEXIST_def)
  from duplicate_subsystem_is_rejected [OF vb db]
  have b: "fst (create_subsystem ?E ?rb True ?s) = Inr (req_status 17)
           \<and> engine_calls (snd (create_subsystem ?E ?rb True ?s)) = []"
    by (simp add: case_prod_beta EEXIST_def e0)
  from d nb nm su a b show ?thesis by simp
qed

subsection \<open>Adding a namespace\<close>

lemma fail_with_cases:
  "fail_with env ex mk s = (r, s') \<Longrightarrow> s' = s"
  by (auto simp: fail_with_def split: sum.splits)

lemma alloc_cluster_frame:
  "alloc_cluster env s = (r, s') \<Longrightarrow> omap s' = omap s \<and> omap_lock_held s' = omap_lock_held s"
  by (auto simp: alloc_cluster_def rpc_def Let_def split: rpc_result.splits)

lemma get_cluster_frame:
  "get_cluster env s = (r, s') \<Longrightarrow> omap s' = omap s \<and> omap_lock_held s' = omap_lock_held s"
proof (induction env s arbitrary: r s' rule: get_cluster.induct)
  case (1 env s)
  show ?case
  proof (cases "current_cluster s")
    case None
    obtain ra s1 where a: "alloc_cluster env s = (ra, s1)" by (cases "alloc_cluster env s")
    from alloc_cluster_frame [OF a] None a "1.prems" show ?thesis
      by (cases ra) (auto simp: get_cluster.simps)
  next
    case (Some cur)
    show ?thesis
    proof (cases "map_of (clusters s) cur")
      case None
      with Some "1.prems" show ?thesis by (simp add: get_cluster.simps)
    next
      case (Some n)
      show ?thesis
      proof (cases "n \<ge> bdevs_per_cluster env")
        case True
        have "get_cluster env (s\<lparr>current_cluster := None\<rparr>) = (r, s')"
          using "1.prems" \<open>current_cluster s = Some cur\<close> Some True
          by (subst (asm) get_cluster.simps) simp
        from "1.IH" [OF \<open>current_cluster s = Some cur\<close> Some True this]
        show ?thesis by simp
      next
        case False
        with "1.prems" \<open>current_cluster s = Some cur\<close> Some show ?thesis
          by (auto simp: get_cluster.simps)
      qed
    qed
  qed
qed

lemma create_bdev_frame:
  assumes "create_bdev env name u pool img bs s = (r, s')"
  shows "omap s' = omap s \<and> omap_lock_held s' = omap_lock_held s"
proof -
  obtain rc s1 where g: "get_cluster env s = (rc, s1)" by (cases "get_cluster env s")
  note f = get_cluster_frame [OF g]
  show ?thesis
  proof (cases rc)
    case (Inl ex)
    with assms g have "s' = s1"
      by (auto simp: create_bdev_def dest: fail_with_cases)
    with f show ?thesis by simp
  next
    case (Inr c)
    with assms g f show ?thesis
      by (auto simp: create_bdev_def rpc_def split: rpc_result.splits if_splits
          dest!: fail_with_cases)
  qed
qed

lemma delete_bdev_effect:
  "delete_bdev env b s = (r, s') \<Longrightarrow> s' = s\<lparr>trace := trace s @ [Rpc (bdev_rbd_delete b)]\<rparr>"
  by (auto simp: delete_bdev_def rpc_def split: rpc_result.splits if_splits
      dest!: fail_with_cases)

lemma create_namespace_frame:
  "create_namespace env n b i g u live s = (r, s') \<Longrightarrow>
     omap s' = omap s \<and> omap_lock_held s' = omap_lock_held s"
  by (auto simp: create_namespace_def rpc_def split: rpc_result.splits if_splits sum.splits
      dest!: fail_with_cases)

text \<open>
  When the attachment step reports its failure as a status, \<^verbatim>\<open>namespace_add_safe\<close>
  deletes the device it has just created, whatever the engine answers to the deletion,
  returns the status of the attachment and leaves the persisted record alone.
\<close>

lemma failed_attachment_deletes_bdev:
  assumes held: "omap_lock_held s"
    and u: "effective_uuid env request \<noteq> []"
    and bdev: "create_bdev env (''bdev_'' @ effective_uuid env request)
                 (effective_uuid env request) (rbd_pool_name request) (rbd_image_name request)
                 (block_size request) s = (Inr ret_bdev, s1)"
    and ok: "status ret_bdev = 0"
    and ns: "create_namespace env (subsystem_nqn request)
               (JStr (''bdev_'' @ effective_uuid env request)) (JInt (nsid request))
               (anagrpid request) (JStr (effective_uuid env request)) live s1
             = (Inr ret_ns, s2)"
    and fails: "status ret_ns \<noteq> 0"
  shows "case namespace_add_safe env request live s of
           (r, s') \<Rightarrow>
             r = Inr (nsid_status (status ret_ns) 0)
           \<and> trace s' = trace s2
               @ [Rpc (bdev_rbd_delete (JStr (''bdev_'' @ effective_uuid env request)))]
           \<and> omap s' = omap s"
proof -
  define rq where "rq = (if uuid request = [] then request\<lparr>uuid := uuid4 env\<rparr> else request)"
  define bn where "bn = ''bdev_'' @ effective_uuid env request"
  have f: "uuid rq = effective_uuid env request"
    "subsystem_nqn rq = subsystem_nqn request" "nsid rq = nsid request"
    "anagrpid rq = anagrpid request" "rbd_pool_name rq = rbd_pool_name request"
    "rbd_image_name rq = rbd_image_name request" "block_size rq = block_size request"
    by (simp_all add: rq_def effective_uuid_def)
  have fb: "find_unique_bdev_name env (JStr (uuid rq)) = Inr (JStr bn)"
    using u by (simp add: find_unique_bdev_name_def f bn_def)
  have bdev': "create_bdev env bn (uuid rq) (rbd_pool_name rq) (rbd_image_name rq)
                 (block_size rq) s = (Inr ret_bdev, s1)"
    using bdev by (simp add: f bn_def)
  have ns': "create_namespace env (subsystem_nqn rq) (JStr bn) (JInt (nsid rq)) (anagrpid rq)
               (JStr (uuid rq)) live s1 = (Inr ret_ns, s2)"
    using ns by (simp add: f bn_def)
  obtain rd s3 where d: "delete_bdev env (JStr bn) s2 = (rd, s3)"
    by (cases "delete_bdev env (JStr bn) s2")
  from delete_bdev_effect [OF d]
  have s3: "s3 = s2\<lparr>trace := trace s2 @ [Rpc (bdev_rbd_delete (JStr bn))]\<rparr>" .
  from create_bdev_frame [OF bdev] create_namespace_frame [OF ns]
  have om: "omap s2 = omap s" by simp
  have "namespace_add_safe env request live s = (Inr (nsid_status (status ret_ns) 0), s3)"
    unfolding namespace_add_safe_def Let_def rq_def [symmetric] with_omap_lock_def
    using held fails ok by (simp add: fb bdev' ns' d)
  with s3 om show ?thesis by (simp add: bn_def)
qed


lemma failed_attachment_example:
  "omap_lock_held (entered (started []))
   \<and> effective_uuid refusing_attach add_request = ''0a1b''
   \<and> fst (namespace_add_safe refusing_attach add_request True (entered (started [])))
       = Inr (nsid_status 22 0)
   \<and> engine_calls (snd (namespace_add_safe refusing_attach add_request True (entered (started []))))
       = [Rpc (bdev_rbd_register_cluster ''cluster_context_0'' None None),
          Rpc (bdev_rbd_create ''bdev_0a1b'' ''cluster_context_0'' ''pool1'' ''img1'' 512 ''0a1b''),
          Rpc (nvmf_subsystem_add_ns ''nqn.a'' (JStr ''bdev_0a1b'') (JInt 0) 1 (JStr ''0a1b'')),
          Rpc (bdev_rbd_delete (JStr ''bdev_0a1b''))]
   \<and> omap (snd (namespace_add_safe refusing_attach add_request True (entered (started [])))) = []"
proof -
  let ?E = refusing_attach
  let ?s = "entered (started [])"
  let ?t1 = "[OmapLockAcquire, RpcLockAcquire,
              Rpc (bdev_rbd_register_cluster ''cluster_context_0'' None None),
              Rpc (bdev_rbd_create ''bdev_0a1b'' ''cluster_context_0'' ''pool1'' ''img1'' 512 ''0a1b'')]"
  let ?s1 = "\<lparr>omap = [], trace = ?t1, clusters = [(''cluster_context_0'', 1)],
             current_cluster = Some ''cluster_context_0'', omap_lock_held = True\<rparr>"
  let ?s2 = "?s1\<lparr>trace := ?t1 @ [Rpc (nvmf_subsystem_add_ns ''nqn.a'' (JStr ''bdev_0a1b'') (JInt 0) 1 (JStr ''0a1b''))]\<rparr>"
  have h: "omap_lock_held ?s" by (simp add: entered_def log_event_def started_def)
  have u: "effective_uuid ?E add_request = ''0a1b''"
    by (simp add: effective_uuid_def add_request_def refusing_attach_def sample_env_def)
  have u0: "effective_uuid ?E add_request \<noteq> []" by (simp add: u)
  have b: "create_bdev ?E (''bdev_'' @ effective_uuid ?E add_request)
             (effective_uuid ?E add_request) (rbd_pool_name add_request)
             (rbd_image_name add_request) (block_size add_request) ?s
           = (Inr (bdev_status 0 ''bdev_0a1b''), ?s1)"
    unfolding u
    by (simp add: create_bdev_def get_cluster.simps alloc_cluster_def rpc_def Let_def
        show_nat_0 entered_def log_event_def started_def add_request_def refusing_attach_def
        sample_env_def answering_def sample_engine_def)
  have n: "create_namespace ?E (subsystem_nqn add_request)
             (JStr (''bdev_'' @ effective_uuid ?E add_request)) (JInt (nsid add_request))
             (anagrpid add_request) (JStr (effective_uuid ?E add_request)) True ?s1
           = (Inr (nsid_status EINVAL 0), ?s2)"
    unfolding u
    by (simp add: create_namespace_def assert_locked_def MAX_ANA_GROUPS_def
        is_discovery_nqn_def rpc_def add_request_def refusing_attach_def
        sample_env_def answering_def)
  from failed_attachment_deletes_bdev [OF h u0 b _ n]
  have "case namespace_add_safe ?E add_request True ?s of
           (r, s') \<Rightarrow>
             r = Inr (nsid_status (status (nsid_status EINVAL 0)) 0)
           \<and> trace s' = trace ?s2
               @ [Rpc (bdev_rbd_delete (JStr (''bdev_'' @ effective_uuid ?E add_request)))]
           \<and> omap s' = omap ?s"
    by (simp add: EINVAL_def)
  with h u show ?thesis
    unfolding u
    by (simp add: case_prod_beta EINVAL_def engine_calls_def entered_def log_event_def
        started_def)
qed


lemma failure_status_timeout: "failure_status env (JSONRPCException timeout_text) = Inl UnboundLocalError"
  by (simp add: failure_status_def parse_json_exeption_def json_error_text_def timeout_text_def)

text \<open>
  Claim C7 says that \<^verbatim>\<open>namespace_add\<close> deletes the just-created backing device whenever
  the attachment fails after the device was created, and returns the attachment error's
  status. The code does not when the engine's exception carries no structured error: the
  translator raises inside \<^verbatim>\<open>create_namespace\<close>, the exception leaves
  \<^verbatim>\<open>namespace_add_safe\<close> before the clean-up, no \<^verbatim>\<open>bdev_rbd_delete\<close> call is made and
  no status is returned.
\<close>

theorem attachment_timeout_leaks_bdev:
  "fst (namespace_add timeout_on_attach add_request True (started [])) = Inl UnboundLocalError
   \<and> engine_calls (snd (namespace_add timeout_on_attach add_request True (started [])))
       = [Rpc (bdev_rbd_register_cluster ''cluster_context_0'' None None),
          Rpc (bdev_rbd_create ''bdev_0a1b'' ''cluster_context_0'' ''pool1'' ''img1'' 512 ''0a1b''),
          Rpc (nvmf_subsystem_add_ns ''nqn.a'' (JStr ''bdev_0a1b'') (JInt 0) 1 (JStr ''0a1b''))]"
  by (simp add: namespace_add_def namespace_add_safe_def lock_defs started_def add_request_def
      timeout_on_attach_def sample_env_def find_unique_bdev_name_def create_bdev_def
      get_cluster.simps alloc_cluster_def rpc_def Let_def show_nat_0 answering_def
      sample_engine_def create_namespace_def assert_locked_def MAX_ANA_GROUPS_def
      is_discovery_nqn_def fail_with_def failure_status_timeout engine_calls_def)

subsection \<open>QoS limits\<close>

lemmas sample_defs = sample_env_def sample_engine_def sample_loads_def sample_record_def
  started_def answering_def listing_a_def subsystem_a_text_def namespace_1_text_def
  qos_1_text_def

lemma find_frame:
  "find_namespace_and_bdev_name env n i u lk s = (r, s') \<Longrightarrow>
     omap s' = omap s \<and> omap_lock_held s' = omap_lock_held s
     \<and> clusters s' = clusters s \<and> current_cluster s' = current_cluster s"
  by (auto simp: find_namespace_and_bdev_name_def rpc_def log_event_def
      split: if_splits rpc_result.splits sum.splits)

lemma merge_field_spec:
  assumes "cur = None \<longrightarrow> readable env kvs f"
  shows "merge_field env (JObj kvs) f cur = Inr (inherit cur (stored_limit env kvs f))"
proof (cases cur)
  case (Some v)
  then show ?thesis by (simp add: merge_field_def inherit_def)
next
  case None
  with assms have r: "readable env kvs f" by simp
  show ?thesis
  proof (cases "map_of kvs f")
    case n: None
    with None show ?thesis
      by (simp add: merge_field_def inherit_def stored_limit_def)
  next
    case (Some v)
    show ?thesis
    proof (cases "v = JNull")
      case True
      with Some None show ?thesis
        by (simp add: merge_field_def inherit_def stored_limit_def limit_value_def)
    next
      case False
      with r Some obtain n where n: "limit_value env v = Some n"
        and f: "fits (qos_limit_type env) n"
        by (auto simp: readable_def split: option.splits)
      from n have "py_int env v = Inr n"
        by (cases v) (simp_all add: limit_value_def py_int_def)
      with Some None False n f show ?thesis
        by (cases v) (simp_all add: merge_field_def inherit_def stored_limit_def)
    qed
  qed
qed

lemma merge_qos_spec:
  assumes "inheritable env kvs request"
  shows "merge_qos env (JObj kvs) request = Inr (merged_limits env kvs request)"
proof (cases "kvs = []")
  case True
  then show ?thesis
    by (simp add: merge_qos_def merged_limits_def stored_limit_def inherit_def
        split: option.splits)
next
  case False
  have 1: "merge_field env (JObj kvs) ''rw_ios_per_second'' (rw_ios_per_second request)
             = Inr (inherit (rw_ios_per_second request)
                      (stored_limit env kvs ''rw_ios_per_second''))"
    by (rule merge_field_spec) (use assms in \<open>simp add: inheritable_def\<close>)
  have 2: "merge_field env (JObj kvs) ''rw_mbytes_per_second'' (rw_mbytes_per_second request)
             = Inr (inherit (rw_mbytes_per_second request)
                      (stored_limit env kvs ''rw_mbytes_per_second''))"
    by (rule merge_field_spec) (use assms in \<open>simp add: inheritable_def\<close>)
  have 3: "merge_field env (JObj kvs) ''r_mbytes_per_second'' (r_mbytes_per_second request)
             = Inr (inherit (r_mbytes_per_second request)
                      (stored_limit env kvs ''r_mbytes_per_second''))"
    by (rule merge_field_spec) (use assms in \<open>simp add: inheritable_def\<close>)
  have 4: "merge_field env (JObj kvs) ''w_mbytes_per_second'' (w_mbytes_per_second request)
             = Inr (inherit (w_mbytes_per_second request)
                      (stored_limit env kvs ''w_mbytes_per_second''))"
    by (rule merge_field_spec) (use assms in \<open>simp add: inheritable_def\<close>)
  show ?thesis using False by (simp add: merge_qos_def merged_limits_def 1 2 3 4)
qed

text \<open>
  An operation that does not return status 0 leaves the persisted record as it was.
\<close>

lemma failed_qos_keeps_record:
  assumes "namespace_set_qos_limits_safe env request live s = (r, s')"
    and "r \<noteq> Inr (req_status 0)"
  shows "omap s' = omap s"
  using assms
  by (auto simp: namespace_set_qos_limits_safe_def with_omap_lock_def rpc_def store_def
      log_event_def fail_with_def
      split: prod.splits sum.splits if_splits rpc_result.splits store_op.splits
      dest!: find_frame)

text \<open>
  Claim C8, as amended. A live-mode \<^verbatim>\<open>namespace_set_qos_limits\<close> that succeeds (the
  namespace and its device are found, the engine accepts the limits, the store accepts
  the entry, and in the stored QoS record every field the request leaves unset is absent,
  null or a limit within the range of the field's type) returns status 0 and persists,
  under the namespace's QoS key, the request with every field left unset taking the limit
  of the previously stored record and every field set keeping the requested value; when
  no QoS record was stored, the request is persisted as it came.
\<close>

theorem qos_limits_inherit_unset_fields:
  assumes held: "omap_lock_held s"
    and found: "find_namespace_and_bdev_name env (subsystem_nqn request) (nsid request)
                  (uuid request) False s = (Inr (ns, bdev_name), s1)"
    and ns: "truthy ns" "truthy bdev_name" "subscript ns ''nsid'' = Inr i"
    and eng: "engine env (trace s1)
                (bdev_set_qos_limit bdev_name (rw_ios_per_second request)
                   (rw_mbytes_per_second request) (r_mbytes_per_second request)
                   (w_mbytes_per_second request)) = Returns ret"
      "truthy ret"
    and st: "\<forall>v. \<not> store_raises env
                     (add_key (namespace_qos_key (subsystem_nqn request) i) v) (omap s)"
  shows "(\<forall>old kvs.
            map_of (omap s) (namespace_qos_key (subsystem_nqn request) i) = Some old
            \<and> json_loads env old = Some (JObj kvs) \<and> inheritable env kvs request
            \<longrightarrow> (case namespace_set_qos_limits_safe env request True s of
                   (r, s') \<Rightarrow>
                     r = Inr (req_status 0)
                   \<and> map_of (omap s') (namespace_qos_key (subsystem_nqn request) i)
                       = Some (MessageToJson env
                                 (namespace_qos_msg (merged_limits env kvs request)))))
       \<and> (map_of (omap s) (namespace_qos_key (subsystem_nqn request) i) = None
            \<longrightarrow> (case namespace_set_qos_limits_safe env request True s of
                   (r, s') \<Rightarrow>
                     r = Inr (req_status 0)
                   \<and> map_of (omap s') (namespace_qos_key (subsystem_nqn request) i)
                       = Some (MessageToJson env (namespace_qos_msg request))))"
proof -
  from find_frame [OF found] held
  have fr: "omap s1 = omap s" "omap_lock_held s1" by simp_all
  have run: "namespace_set_qos_limits_safe env request True s =
      (Inr (req_status 0),
       (snd (rpc env (bdev_set_qos_limit bdev_name (rw_ios_per_second request)
                   (rw_mbytes_per_second request) (r_mbytes_per_second request)
                   (w_mbytes_per_second request)) s1))
        \<lparr>omap := AList.update (namespace_qos_key (subsystem_nqn request) i)
                   (MessageToJson env (namespace_qos_msg m)) (omap s)\<rparr>)"
    if m: "merge_qos env (previous_qos env (subsystem_nqn request) i True s1) request = Inr m"
    for m
    using ns eng st fr m
    by (simp add: namespace_set_qos_limits_safe_def found with_omap_lock_def rpc_def store_def)
  show ?thesis
  proof (intro conjI allI impI)
    fix old kvs
    assume a: "map_of (omap s) (namespace_qos_key (subsystem_nqn request) i) = Some old
            \<and> json_loads env old = Some (JObj kvs) \<and> inheritable env kvs request"
    then have p: "previous_qos env (subsystem_nqn request) i True s1 = JObj kvs"
      by (simp add: previous_qos_def fr loads_def)
    have "merge_qos env (previous_qos env (subsystem_nqn request) i True s1) request
            = Inr (merged_limits env kvs request)"
      unfolding p by (rule merge_qos_spec) (use a in simp)
    from run [OF this] show "case namespace_set_qos_limits_safe env request True s of
                   (r, s') \<Rightarrow>
                     r = Inr (req_status 0)
                   \<and> map_of (omap s') (namespace_qos_key (subsystem_nqn request) i)
                       = Some (MessageToJson env
                                 (namespace_qos_msg (merged_limits env kvs request)))"
      by (simp add: update_conv')
  next
    assume "map_of (omap s) (namespace_qos_key (subsystem_nqn request) i) = None"
    then have p: "previous_qos env (subsystem_nqn request) i True s1 = JNull"
      by (simp add: previous_qos_def fr)
    have "merge_qos env (previous_qos env (subsystem_nqn request) i True s1) request
            = Inr request"
      unfolding p by (simp add: merge_qos_def)
    from run [OF this] show "case namespace_set_qos_limits_safe env request True s of
                   (r, s') \<Rightarrow>
                     r = Inr (req_status 0)
                   \<and> map_of (omap s') (namespace_qos_key (subsystem_nqn request) i)
                       = Some (MessageToJson env (namespace_qos_msg request))"
      by (simp add: update_conv')
  qed
qed

lemma decimal_2000: "decimal ''2000'' = Some 2000" "decimal ''5'' = Some 5"
  by (simp_all add: decimal_def digit_chars_def read_nat_def digit_val_def)

lemma show_limits:
  "show_limit (Some 2000) = ''2000''" "show_limit (Some 30) = ''30''"
  "show_limit (Some 5) = ''5''" "show_limit None = ''-''"
  by (simp_all add: show_limit_def show_int_def show_nat.simps digit_chars_def)

lemmas qos_defs = qos_env_def qos_refused_def qos_loads_def oversized_qos_text_def
  qos_record_def oversized_qos_record_def qos_request_def qos_1_fields_def sample_defs

text \<open>
  Claim C8 as stated fails for an operation that does not succeed. With a stored record
  that holds 2000 and 5 for two limits and a request that sets a third to 30: when the
  engine answers \<open>False\<close> the status is \<open>EINVAL\<close> and the stored record stays as it was,
  without the requested 30; when the stored record holds a limit of \<open>2 ^ 64\<close> for a field
  the request leaves unset, the merge raises \<^verbatim>\<open>ValueError\<close> before any call to set the
  limits, and the stored record stays as it was.
\<close>

theorem qos_not_recorded_counterexample:
  "fst (namespace_set_qos_limits qos_refused qos_request True (started qos_record))
     = Inr (req_status 22)
   \<and> map_of (omap (snd (namespace_set_qos_limits qos_refused qos_request True
                           (started qos_record))))
        (namespace_qos_key ''nqn.a'' (JInt 1)) = Some qos_1_text
   \<and> fst (namespace_set_qos_limits qos_env qos_request True (started oversized_qos_record))
       = Inl ValueError
   \<and> engine_calls (snd (namespace_set_qos_limits qos_env qos_request True
                           (started oversized_qos_record)))
       = [Rpc (nvmf_get_subsystems ''nqn.a'')]
   \<and> map_of (omap (snd (namespace_set_qos_limits qos_env qos_request True
                           (started oversized_qos_record))))
        (namespace_qos_key ''nqn.a'' (JInt 1)) = Some oversized_qos_text"
  by (simp add: namespace_set_qos_limits_def namespace_set_qos_limits_safe_def lock_defs
      qos_defs find_namespace_and_bdev_name_def rpc_def skip_by_nsid_def skip_by_uuid_def
      previous_qos_def loads_def merge_qos_def merge_field_def py_int_def decimal_2000
      store_def engine_calls_def EINVAL_def ENODEV_def)

theorem qos_limits_witness:
  "omap_lock_held (entered (started qos_record))
   \<and> inheritable qos_env qos_1_fields qos_request
   \<and> fst (namespace_set_qos_limits_safe qos_env qos_request True (entered (started qos_record)))
       = Inr (req_status 0)
   \<and> map_of (omap (snd (namespace_set_qos_limits_safe qos_env qos_request True
                           (entered (started qos_record)))))
        (namespace_qos_key ''nqn.a'' (JInt 1))
       = Some ''2000 30 5 -''"
proof -
  let ?E = qos_env
  let ?s = "entered (started qos_record)"
  let ?ns = "JObj [(''nsid'', JInt 1), (''uuid'', JStr ''0a1b''), (''bdev_name'', JStr ''bdev_0a1b'')]"
  let ?s1 = "?s\<lparr>trace := trace ?s @ [Rpc (nvmf_get_subsystems ''nqn.a'')]\<rparr>"
  have h: "omap_lock_held ?s" by (simp add: entered_def log_event_def started_def)
  have f: "find_namespace_and_bdev_name ?E (subsystem_nqn qos_request) (nsid qos_request)
             (uuid qos_request) False ?s = (Inr (?ns, JStr ''bdev_0a1b''), ?s1)"
    by (simp add: find_namespace_and_bdev_name_def qos_request_def rpc_def qos_env_def
        sample_env_def sample_engine_def listing_a_def skip_by_nsid_def skip_by_uuid_def)
  have n: "truthy ?ns" "truthy (JStr ''bdev_0a1b'')" "subscript ?ns ''nsid'' = Inr (JInt 1)"
    by simp_all
  have e: "engine ?E (trace ?s1)
             (bdev_set_qos_limit (JStr ''bdev_0a1b'') (rw_ios_per_second qos_request)
                (rw_mbytes_per_second qos_request) (r_mbytes_per_second qos_request)
                (w_mbytes_per_second qos_request)) = Returns (JBool True)"
      "truthy (JBool True)"
    by (simp_all add: qos_env_def sample_env_def sample_engine_def)
  have st: "\<forall>v. \<not> store_raises ?E
                 (add_key (namespace_qos_key (subsystem_nqn qos_request) (JInt 1)) v) (omap ?s)"
    by (simp add: qos_env_def sample_env_def)
  have inh: "inheritable ?E qos_1_fields qos_request"
    by (simp add: inheritable_def readable_def limit_value_def qos_1_fields_def
        qos_request_def qos_env_def sample_env_def decimal_2000)
  have old: "map_of (omap ?s) (namespace_qos_key (subsystem_nqn qos_request) (JInt 1))
               = Some qos_1_text
             \<and> json_loads ?E qos_1_text = Some (JObj qos_1_fields)
             \<and> inheritable ?E qos_1_fields qos_request"
    using inh
    by (simp add: entered_def log_event_def started_def qos_defs)
  have m: "MessageToJson ?E (namespace_qos_msg (merged_limits ?E qos_1_fields qos_request))
             = ''2000 30 5 -''"
    by (simp add: merged_limits_def qos_1_fields_def qos_request_def inherit_def
        stored_limit_def limit_value_def qos_env_def sample_env_def decimal_2000
        render_limits_def show_limits)
  from qos_limits_inherit_unset_fields [OF h f n e st, THEN conjunct1, rule_format, OF old]
  have "case namespace_set_qos_limits_safe ?E qos_request True ?s of
          (r, s') \<Rightarrow>
            r = Inr (req_status 0)
          \<and> map_of (omap s') (namespace_qos_key (subsystem_nqn qos_request) (JInt 1))
              = Some (MessageToJson ?E
                        (namespace_qos_msg (merged_limits ?E qos_1_fields qos_request)))" .
  then show ?thesis
    unfolding m using h inh by (simp add: case_prod_beta qos_request_def)
qed

subsection \<open>Deleting resources\<close>













subsection \<open>Changing the load-balancing group\<close>

lemma quiet_refl [simp]: "quiet_step s s"
  by (simp add: quiet_step_def only_removes_def)

lemma quiet_trans: "quiet_step s s1 \<Longrightarrow> quiet_step s1 s2 \<Longrightarrow> quiet_step s s2"
  by (auto simp: quiet_step_def only_removes_def)

lemma quiet_find:
  "find_namespace_and_bdev_name env n i u False s = (r, s') \<Longrightarrow> quiet_step s s'"
  by (auto simp: find_namespace_and_bdev_name_def rpc_def quiet_step_def only_removes_def
      split: if_splits rpc_result.splits sum.splits)

lemma quiet_remove_namespace:
  "remove_namespace env n i live s = (r, s') \<Longrightarrow> quiet_step s s'"
  by (auto simp: remove_namespace_def rpc_def fail_with_def quiet_step_def only_removes_def
      split: if_splits rpc_result.splits sum.splits)

lemma map_of_delete_SomeD: "map_of (AList.delete k al) k' = Some v \<Longrightarrow> map_of al k' = Some v"
  by (simp add: delete_conv' split: if_splits)

lemma quiet_remove_namespace_from_state:
  "remove_namespace_from_state env n i live s = (r, s') \<Longrightarrow> quiet_step s s'"
  by (auto simp: remove_namespace_from_state_def store_def quiet_step_def only_removes_def
      split: if_splits sum.splits dest!: map_of_delete_SomeD)

lemma create_namespace_oversized:
  "g > MAX_ANA_GROUPS \<Longrightarrow>
     create_namespace env n b i g u live s =
       (if \<not> assert_locked live s then (Inl AssertionError, s)
        else (Inr (nsid_status EINVAL 0), s))"
  by (simp add: create_namespace_def)

lemma errno_nonzero [simp]: "EINVAL \<noteq> 0" "ENODEV \<noteq> 0" "ENOENT \<noteq> 0"
  by (simp_all add: EINVAL_def ENODEV_def ENOENT_def)

lemma change_group_oversized_inner:
  assumes big: "anagrpid request > MAX_ANA_GROUPS"
    and held: "omap_lock_held t"
    and run: "namespace_change_load_balancing_group_safe env request live t = (r, t')"
  shows "(\<forall>rep. r = Inr rep \<longrightarrow> status rep \<noteq> 0) \<and> quiet_step t t'"
proof -
  obtain rf s1 where f: "find_namespace_and_bdev_name env (subsystem_nqn request) (nsid request)
                    (uuid request) False t = (rf, s1)"
    by (cases "find_namespace_and_bdev_name env (subsystem_nqn request) (nsid request)
                    (uuid request) False t")
  note q1 = quiet_find [OF f]
  define nsid' where "nsid' = (case rf of Inr (ns, fb) \<Rightarrow>
                         (case key_or ns ''nsid'' (JInt 0) of Inr v \<Rightarrow> v | Inl e \<Rightarrow> JNull)
                       | Inl e \<Rightarrow> JNull)"
  obtain rr s2 where r2: "remove_namespace env (subsystem_nqn request) nsid' live s1 = (rr, s2)"
    by (cases "remove_namespace env (subsystem_nqn request) nsid' live s1")
  obtain r3 s3 where r3: "remove_namespace_from_state env (subsystem_nqn request) nsid'
                            live s2 = (r3, s3)"
    by (cases "remove_namespace_from_state env (subsystem_nqn request) nsid' live s2")
  note q2 = quiet_trans [OF q1 quiet_remove_namespace [OF r2]]
  note q3 = quiet_trans [OF q2 quiet_remove_namespace_from_state [OF r3]]
  have "(\<forall>rep. r = Inr rep \<longrightarrow> status rep \<noteq> 0) \<and> (t' = s1 \<or> t' = s2 \<or> t' = s3)"
    using run held f r2 r3
    by (auto simp: namespace_change_load_balancing_group_safe_def with_omap_lock_def nsid'_def
        create_namespace_oversized [OF big]
        split: sum.splits option.splits if_splits prod.splits)
  with q1 q2 q3 show ?thesis by auto
qed

text \<open>
  Claim C3, as amended. A request to \<^verbatim>\<open>namespace_change_load_balancing_group\<close> whose
  group id exceeds \<open>MAX_ANA_GROUPS\<close> never succeeds: a reply it returns carries a non-zero
  status. The refusal happens inside the transaction: the trace grows by the acquisition
  of the distributed lock and of the engine-call lock, then by events among which there
  is no attach call, then by the two releases. No entry is written to the persisted
  record: every entry present afterwards was present before, with the same text.
\<close>

theorem oversized_group_rejected_under_locks:
  assumes big: "anagrpid request > MAX_ANA_GROUPS"
    and idle: "\<not> omap_lock_held s"
  shows "case namespace_change_load_balancing_group env request live s of
           (r, s') \<Rightarrow>
             (\<forall>rep. r = Inr rep \<longrightarrow> status rep \<noteq> 0)
           \<and> (\<exists>evs. trace s' = trace s @ [OmapLockAcquire, RpcLockAcquire] @ evs
                                  @ [RpcLockRelease, OmapLockRelease]
                    \<and> (\<forall>e \<in> set evs. \<not> is_add_ns e))
           \<and> (\<forall>k v. map_of (omap s') k = Some v \<longrightarrow> map_of (omap s) k = Some v)"
proof -
  let ?t = "log_event RpcLockAcquire ((log_event OmapLockAcquire s)\<lparr>omap_lock_held := True\<rparr>)"
  obtain r t' where run: "namespace_change_load_balancing_group_safe env request live ?t = (r, t')"
    by (cases "namespace_change_load_balancing_group_safe env request live ?t")
  have held: "omap_lock_held ?t" by (simp add: log_event_def)
  from change_group_oversized_inner [OF big held run]
  have st: "\<forall>rep. r = Inr rep \<longrightarrow> status rep \<noteq> 0" and q: "quiet_step ?t t'" by simp_all
  from q obtain evs where evs: "trace t' = trace ?t @ evs" "\<forall>e \<in> set evs. \<not> is_add_ns e"
    and om: "\<forall>k v. map_of (omap t') k = Some v \<longrightarrow> map_of (omap ?t) k = Some v"
    by (auto simp: quiet_step_def only_removes_def)
  have res: "namespace_change_load_balancing_group env request live s =
          (r, (log_event OmapLockRelease (log_event RpcLockRelease t'))\<lparr>omap_lock_held := False\<rparr>)"
    using idle run
    by (simp add: namespace_change_load_balancing_group_def execute_grpc_function_def
        execute_omap_locking_function_def grpc_function_with_lock_def with_omap_lock_def
        with_rpc_lock_def)
  show ?thesis
    unfolding res using st evs om by (simp add: log_event_def)
qed

lemmas change_defs = namespace_change_load_balancing_group_def
  namespace_change_load_balancing_group_safe_def lock_defs regroup_def sample_defs
  find_namespace_and_bdev_name_def rpc_def skip_by_nsid_def skip_by_uuid_def key_or_def
  remove_namespace_def remove_namespace_from_state_def store_def create_namespace_def
  assert_locked_def is_discovery_nqn_def absent_def rebuild_namespace_add_req_def
  str_field_def int_field_def loads_def EINVAL_def ENOENT_def ENODEV_def
  MAX_ANA_GROUPS_def

text \<open>
  Claim C3 as stated fails. Group id 5 on an existing namespace is refused with \<open>EINVAL\<close>,
  but only after both locks were taken, the namespace was detached in the engine and its
  entry was removed from the record. Group id 0, also outside \<open>[1,4]\<close>, is accepted.
\<close>

theorem oversized_group_detaches_counterexample:
  "fst (namespace_change_load_balancing_group (sample_env sample_engine sample_loads)
          (regroup 5) True (started sample_record)) = Inr (req_status 22)
   \<and> trace (snd (namespace_change_load_balancing_group (sample_env sample_engine sample_loads)
          (regroup 5) True (started sample_record)))
       = [OmapLockAcquire, RpcLockAcquire, Rpc (nvmf_get_subsystems ''nqn.a''),
          Rpc (nvmf_subsystem_remove_ns ''nqn.a'' (JInt 1)), RpcLockRelease, OmapLockRelease]
   \<and> \<not> absent (started sample_record) (namespace_key ''nqn.a'' (JInt 1))
   \<and> absent (snd (namespace_change_load_balancing_group
                    (sample_env sample_engine sample_loads)
                    (regroup 5) True (started sample_record)))
        (namespace_key ''nqn.a'' (JInt 1))
   \<and> fst (namespace_change_load_balancing_group (sample_env sample_engine sample_loads)
          (regroup 0) True (started sample_record)) = Inr (req_status 0)"
  by (simp add: change_defs)

theorem oversized_group_witness:
  "anagrpid (regroup 5) > MAX_ANA_GROUPS
   \<and> \<not> omap_lock_held (started sample_record)
   \<and> take 2 (trace (snd (namespace_change_load_balancing_group
                            (sample_env sample_engine sample_loads)
                            (regroup 5) True (started sample_record))))
       = [OmapLockAcquire, RpcLockAcquire]
   \<and> map_of (omap (snd (namespace_change_load_balancing_group
                            (sample_env sample_engine sample_loads)
                            (regroup 5) True (started sample_record))))
         (subsystem_key ''nqn.a'') = Some subsystem_a_text"
proof -
  have big: "anagrpid (regroup 5) > MAX_ANA_GROUPS"
    by (simp add: regroup_def MAX_ANA_GROUPS_def)
  have idle: "\<not> omap_lock_held (started sample_record)"
    by (simp add: started_def)
  have kept: "map_of (omap (snd (namespace_change_load_balancing_group
                            (sample_env sample_engine sample_loads)
                            (regroup 5) True (started sample_record))))
         (subsystem_key ''nqn.a'') = Some subsystem_a_text"
    by (simp add: change_defs)
  have "take 2 (trace (snd (namespace_change_load_balancing_group
                            (sample_env sample_engine sample_loads)
                            (regroup 5) True (started sample_record))))
       = [OmapLockAcquire, RpcLockAcquire]"
    using oversized_group_rejected_under_locks [OF big idle,
        where env = "sample_env sample_engine sample_loads" and live = True]
    by (auto simp: case_prod_beta started_def)
  with big idle kept show ?thesis by simp
qed

subsection \<open>Listeners of an HA subsystem\<close>

text \<open>
  The loop over the groups: it issues the calls for the groups in order and stops at the
  first call that raises, with the result of the handler; it touches neither the record
  nor the lock flag.
\<close>

lemma set_ana_states_run:
  "set_ana_states env request tr af xs s = (r, s') \<Longrightarrow>
     omap s' = omap s \<and> omap_lock_held s' = omap_lock_held s
   \<and> (\<exists>k \<le> length xs.
          trace s' = trace s @ map (\<lambda>x. Rpc (ana_call request tr af (int x + 1))) (take k xs)
        \<and> (if r = Inr None then k = length xs
           else 0 < k
              \<and> (\<exists>ex. engine env
                          (trace s @ map (\<lambda>x. Rpc (ana_call request tr af (int x + 1)))
                                        (take (k - 1) xs))
                          (ana_call request tr af (int (xs ! (k - 1)) + 1)) = Raises ex
                      \<and> r = (case failure_status env ex of
                                Inl e \<Rightarrow> Inl e
                              | Inr st \<Rightarrow> Inr (Some (req_status st))))))"
proof (induction xs arbitrary: s)
  case Nil
  then show ?case by auto
next
  case (Cons x xs)
  let ?c = "ana_call request tr af (int x + 1)"
  let ?s1 = "s\<lparr>trace := trace s @ [Rpc ?c]\<rparr>"
  show ?case
  proof (cases "engine env (trace s) ?c")
    case (Raises ex)
    with Cons.prems have r: "r = (case failure_status env ex of
                                Inl e \<Rightarrow> Inl e
                              | Inr st \<Rightarrow> Inr (Some (req_status st)))" and s': "s' = ?s1"
      by (auto simp: rpc_def ana_call_def split: sum.splits)
    have ne: "r \<noteq> Inr None" using r by (simp split: sum.splits)
    show ?thesis
      unfolding s' using ne Raises r
      by (intro conjI exI [where x = 1]) (simp_all)
  next
    case (Returns v)
    with Cons.prems have run: "set_ana_states env request tr af xs ?s1 = (r, s')"
      by (simp add: rpc_def ana_call_def)
    from Cons.IH [OF run] obtain k where k: "k \<le> length xs"
      and t: "trace s' = trace ?s1 @ map (\<lambda>x. Rpc (ana_call request tr af (int x + 1))) (take k xs)"
      and c: "if r = Inr None then k = length xs
           else 0 < k
              \<and> (\<exists>ex. engine env
                          (trace ?s1 @ map (\<lambda>x. Rpc (ana_call request tr af (int x + 1)))
                                        (take (k - 1) xs))
                          (ana_call request tr af (int (xs ! (k - 1)) + 1)) = Raises ex
                      \<and> r = (case failure_status env ex of
                                Inl e \<Rightarrow> Inl e
                              | Inr st \<Rightarrow> Inr (Some (req_status st))))"
      and fr: "omap s' = omap s" "omap_lock_held s' = omap_lock_held s"
      by auto
    show ?thesis
    proof (intro conjI exI [where x = "Suc k"])
      show "omap s' = omap s" "omap_lock_held s' = omap_lock_held s" by (rule fr)+
      show "Suc k \<le> length (x # xs)" using k by simp
      show "trace s' = trace s @ map (\<lambda>x. Rpc (ana_call request tr af (int x + 1)))
                                    (take (Suc k) (x # xs))"
        using t by simp
      show "if r = Inr None then Suc k = length (x # xs)
            else 0 < Suc k
              \<and> (\<exists>ex. engine env
                          (trace s @ map (\<lambda>x. Rpc (ana_call request tr af (int x + 1)))
                                        (take (Suc k - 1) (x # xs)))
                          (ana_call request tr af (int ((x # xs) ! (Suc k - 1)) + 1)) = Raises ex
                      \<and> r = (case failure_status env ex of
                                Inl e \<Rightarrow> Inl e
                              | Inr st \<Rightarrow> Inr (Some (req_status st))))"
      proof (cases "r = Inr None")
        case True
        with c show ?thesis by simp
      next
        case False
        with c obtain k' where k': "k = Suc k'" by (cases k) auto
        from False c show ?thesis by (simp add: k')
      qed
    qed
  qed
qed

lemma resolve_ha_omap:
  "omap s' = omap s \<Longrightarrow> resolve_ha env request k s' = resolve_ha env request k s"
  by (simp add: resolve_ha_def)

lemma resolve_ha_request:
  "ana_call (snd (resolve_ha env request k s)) tr af g = ana_call request tr af g
   \<and> nqn (snd (resolve_ha env request k s)) = nqn request
   \<and> gateway_name (snd (resolve_ha env request k s)) = gateway_name request
   \<and> traddr (snd (resolve_ha env request k s)) = traddr request
   \<and> trsvcid (snd (resolve_ha env request k s)) = trsvcid request"
  by (simp add: resolve_ha_def ana_call_def split: option.splits sum.splits)

text \<open>
  \<^verbatim>\<open>create_listener_safe\<close> on a subsystem with HA enabled, once the engine has accepted
  the listener: the engine is asked to set the groups \<open>1, 2, \<dots>\<close> in this order and
  nothing else (in particular the listener is never removed). Either all four calls
  return and the operation goes on to record the listener, or the first call that raises
  ends the operation with the result of the handler and the record as it was.
\<close>

lemma ha_listener_groups:
  assumes held: "omap_lock_held s"
    and tr: "TransportType_key env (trtype request) = Some tr"
    and af: "AddressFamily_key env (adrfam request) = Some af"
    and hk: "AutoHAState_key env (auto_ha_state request) = Some ha_key"
    and nd: "\<not> is_discovery_nqn env (nqn request)"
    and own: "gateway_name request = own_gateway_name env"
    and fresh: "\<not> matching_listener_exists live (nqn request) (gateway_name request) tr
                     (traddr request) (trsvcid request) s"
    and accept: "engine env (trace s)
                   (nvmf_subsystem_add_listener (nqn request) tr (traddr request)
                      (trsvcid request) af) = Returns ret"
    and ok: "truthy ret"
    and ha: "fst (resolve_ha env request ha_key s)"
  shows "case create_listener_safe env request live s of
           (r, s') \<Rightarrow>
             (\<exists>k \<le> 4.
                 trace s' = trace s
                   @ Rpc (nvmf_subsystem_add_listener (nqn request) tr (traddr request)
                            (trsvcid request) af)
                   # map (\<lambda>x. Rpc (ana_call request tr af (int x + 1))) [0 ..< k]
               \<and> (k = 4 \<and> (r = Inr (req_status 0) \<or> r = Inr (req_status EINVAL))
                  \<or> 0 < k \<and> omap s' = omap s
                    \<and> (\<exists>ex. engine env
                                (trace s
                                 @ Rpc (nvmf_subsystem_add_listener (nqn request) tr
                                          (traddr request) (trsvcid request) af)
                                 # map (\<lambda>x. Rpc (ana_call request tr af (int x + 1)))
                                       [0 ..< k - 1])
                                (ana_call request tr af (int k)) = Raises ex
                            \<and> r = (case failure_status env ex of
                                      Inl e \<Rightarrow> Inl e
                                    | Inr st \<Rightarrow> Inr (req_status st)))))"
proof -
  let ?add = "nvmf_subsystem_add_listener (nqn request) tr (traddr request) (trsvcid request) af"
  let ?s1 = "s\<lparr>trace := trace s @ [Rpc ?add]\<rparr>"
  let ?rq = "snd (resolve_ha env request ha_key s)"
  let ?f = "\<lambda>x. Rpc (ana_call request tr af (int x + 1))"
  have rh: "resolve_ha env request ha_key ?s1 = (True, ?rq)"
    using ha by (simp add: resolve_ha_omap [of ?s1 s] prod_eq_iff)
  note rq = resolve_ha_request [of env request ha_key s]
  define xs where "xs = [0 ..< nat MAX_ANA_GROUPS]"
  have len: "length xs = 4" by (simp add: xs_def MAX_ANA_GROUPS_def)
  have tk: "\<And>j. j \<le> 4 \<Longrightarrow> take j xs = [0 ..< j]"
    by (simp add: xs_def MAX_ANA_GROUPS_def take_upt del: upt_rec_numeral)
  have nth: "\<And>j. j < 4 \<Longrightarrow> xs ! j = j"
    by (simp add: xs_def MAX_ANA_GROUPS_def del: upt_rec_numeral)
  obtain res s2 where run: "set_ana_states env ?rq tr af xs ?s1 = (res, s2)"
    by (cases "set_ana_states env ?rq tr af xs ?s1")
  from set_ana_states_run [OF run] obtain k where k': "k \<le> length xs"
    and t': "trace s2 = trace ?s1 @ map (\<lambda>x. Rpc (ana_call ?rq tr af (int x + 1))) (take k xs)"
    and c': "if res = Inr None then k = length xs
           else 0 < k
              \<and> (\<exists>ex. engine env
                          (trace ?s1 @ map (\<lambda>x. Rpc (ana_call ?rq tr af (int x + 1)))
                                        (take (k - 1) xs))
                          (ana_call ?rq tr af (int (xs ! (k - 1)) + 1)) = Raises ex
                      \<and> res = (case failure_status env ex of
                                Inl e \<Rightarrow> Inl e
                              | Inr st \<Rightarrow> Inr (Some (req_status st))))"
    and fr': "omap s2 = omap ?s1" "omap_lock_held s2 = omap_lock_held ?s1"
    by blast
  from k' len have k: "k \<le> 4" by simp
  from fr' have fr: "omap s2 = omap s" "omap_lock_held s2 = omap_lock_held s" by simp_all
  have t: "trace s2 = trace s @ Rpc ?add # map ?f [0 ..< k]"
    using t' k by (simp add: rq tk)
  have c: "if res = Inr None then k = 4
           else 0 < k
              \<and> (\<exists>ex. engine env (trace s @ Rpc ?add # map ?f [0 ..< k - 1])
                          (ana_call request tr af (int k)) = Raises ex
                      \<and> res = (case failure_status env ex of
                                Inl e \<Rightarrow> Inl e
                              | Inr st \<Rightarrow> Inr (Some (req_status st))))"
  proof (cases "res = Inr None")
    case True
    with c' len show ?thesis by simp
  next
    case False
    with c' obtain ex where kp: "0 < k"
      and e: "engine env (trace ?s1 @ map (\<lambda>x. Rpc (ana_call ?rq tr af (int x + 1)))
                                        (take (k - 1) xs))
                          (ana_call ?rq tr af (int (xs ! (k - 1)) + 1)) = Raises ex"
      and r: "res = (case failure_status env ex of
                                Inl e \<Rightarrow> Inl e
                              | Inr st \<Rightarrow> Inr (Some (req_status st)))"
      by auto
    have i: "int (xs ! (k - Suc 0)) + 1 = int k" using k kp by (simp add: nth)
    have "engine env (trace s @ Rpc ?add # map ?f [0 ..< k - 1])
            (ana_call request tr af (int k)) = Raises ex"
      using e k by (simp add: rq tk i)
    with False kp r show ?thesis by auto
  qed
  have body: "create_listener_safe env request live s =
      (case res of
         Inl e \<Rightarrow> (Inl e, s2)
       | Inr (Some failed) \<Rightarrow> (Inr failed, s2)
       | Inr None \<Rightarrow>
           if live then
             (case store env
                     (add_key (listener_key (nqn request) (gateway_name request) tr
                                 (traddr request) (trsvcid request))
                        (MessageToJson env (listener_msg ?rq))) s2 of
                (Inl e, s3) \<Rightarrow> (Inr (req_status EINVAL), s3)
              | (Inr u, s3) \<Rightarrow> (Inr (req_status 0), s3))
           else (Inr (req_status 0), s2))"
    using held tr af hk nd own fresh accept ok
    by (simp add: create_listener_safe_def with_omap_lock_def rpc_def rh rq
        run [unfolded xs_def] del: upt_rec_numeral split: sum.splits option.splits)
  show ?thesis
  proof (cases "res = Inr None")
    case True
    with c have k4: "k = 4" by simp
    show ?thesis
      unfolding body using True t k4
      by (auto simp: store_def simp del: upt_rec_numeral intro!: exI [where x = 4])
  next
    case False
    with c obtain ex where kp: "0 < k"
      and e: "engine env (trace s @ Rpc ?add # map ?f [0 ..< k - 1])
                (ana_call request tr af (int k)) = Raises ex"
      and r: "res = (case failure_status env ex of
                                Inl e \<Rightarrow> Inl e
                              | Inr st \<Rightarrow> Inr (Some (req_status st)))"
      by auto
    show ?thesis
    proof (cases "failure_status env ex")
      case (Inl x)
      show ?thesis
        unfolding body using t k kp e r fr Inl
        by (simp del: upt_rec_numeral) (rule exI [where x = k], simp)
    next
      case (Inr st)
      show ?thesis
        unfolding body using t k kp e r fr Inr
        by (simp del: upt_rec_numeral) (rule exI [where x = k], simp)
    qed
  qed
qed

lemmas listener_defs = create_listener_def create_listener_safe_def lock_defs
  listener_request_def ana_call_def sample_defs rpc_def is_discovery_nqn_def
  matching_listener_exists_def resolve_ha_def loads_def store_def engine_calls_def
  MAX_ANA_GROUPS_def ENOENT_def EINVAL_def EEXIST_def ENOKEY_def upt_rec
  failure_status_def parse_json_exeption_def timeout_text_def json_error_text_def
  fail_with_def absent_def

text \<open>
  Claim C6 fails on a group call that times out. \<^verbatim>\<open>create_listener\<close> in live mode for a
  listener of the HA subsystem \<open>nqn.a\<close>, where the call for group 2 raises a
  \<^verbatim>\<open>JSONRPCException\<close> without a structured error: the operation returns no status, it
  raises \<^verbatim>\<open>UnboundLocalError\<close> out of the handler. The engine has been asked to add the
  listener and to set groups 1 and 2, and the record is unchanged.
\<close>

theorem ana_state_timeout_escapes:
  "fst (create_listener ana_timeout listener_request True (started sample_record))
     = Inl UnboundLocalError
   \<and> engine_calls (snd (create_listener ana_timeout listener_request True
                          (started sample_record)))
       = [Rpc (nvmf_subsystem_add_listener ''nqn.a'' ''TCP'' ''10.0.0.1'' 4420 ''ipv4''),
          Rpc (ana_call listener_request ''TCP'' ''ipv4'' 1),
          Rpc (ana_call listener_request ''TCP'' ''ipv4'' 2)]
   \<and> omap (snd (create_listener ana_timeout listener_request True (started sample_record)))
       = sample_record"
  by (simp add: listener_defs ana_timeout_def)

text \<open>
  A group call that returns \<open>False\<close> is not taken for a failure: the remaining groups are
  set, the listener is recorded and the status is 0.
\<close>

lemma ana_state_falsy_ignored:
  "fst (create_listener ana_falsy listener_request True (started sample_record))
     = Inr (req_status 0)
   \<and> engine_calls (snd (create_listener ana_falsy listener_request True
                          (started sample_record)))
       = [Rpc (nvmf_subsystem_add_listener ''nqn.a'' ''TCP'' ''10.0.0.1'' 4420 ''ipv4''),
          Rpc (ana_call listener_request ''TCP'' ''ipv4'' 1),
          Rpc (ana_call listener_request ''TCP'' ''ipv4'' 2),
          Rpc (ana_call listener_request ''TCP'' ''ipv4'' 3),
          Rpc (ana_call listener_request ''TCP'' ''ipv4'' 4)]
   \<and> \<not> absent (snd (create_listener ana_falsy listener_request True (started sample_record)))
         (listener_key ''nqn.a'' ''gw1'' ''TCP'' ''10.0.0.1'' 4420)"
  by (simp add: listener_defs ana_falsy_def)

subsection \<open>Deleting a subsystem that has namespaces\<close>

text \<open>
  Without \<^verbatim>\<open>force\<close>, a live \<^verbatim>\<open>delete_subsystem\<close> of a subsystem for which the record
  lists a namespace returns \<open>EBUSY\<close> and leaves the whole state, trace and record, as it
  was.
\<close>

lemma unforced_delete_is_busy:
  assumes "\<not> is_discovery_nqn env (subsystem_nqn request)"
    and "\<not> force request"
    and "get_subsystem_namespaces env (subsystem_nqn request) s \<noteq> []"
  shows "delete_subsystem env request True s = (Inr (req_status EBUSY), s)"
  using assms by (simp add: delete_subsystem_def)

lemmas delete_defs = delete_subsystem_def delete_subsystem_safe_def
  remove_subsystem_from_state_def get_subsystem_namespaces_def namespace_delete_def
  namespace_delete_safe_def lock_defs forced_delete_def sample_defs
  find_namespace_and_bdev_name_def rpc_def skip_by_nsid_def skip_by_uuid_def
  remove_namespace_def remove_namespace_from_state_def delete_bdev_def store_def
  assert_locked_def is_discovery_nqn_def absent_def loads_def engine_calls_def
  failure_status_def parse_json_exeption_def timeout_text_def json_error_text_def
  fail_with_def EINVAL_def ENOENT_def ENODEV_def EBUSY_def

lemma unforced_delete_example:
  "delete_subsystem detach_refused (forced_delete\<lparr>force := False\<rparr>) True (started sample_record)
     = (Inr (req_status 16), started sample_record)"
  by (simp add: delete_defs detach_refused_def)

text \<open>
  With \<^verbatim>\<open>force\<close>, the namespaces are deleted one by one. A deletion that returns a
  reply, whatever its status, is followed by the next one; when none of them raises, the
  subsystem is deleted in the engine under both locks.
\<close>

lemma remove_namespace_held:
  "remove_namespace env n i live s = (r, s') \<Longrightarrow> omap_lock_held s' = omap_lock_held s"
  by (auto simp: remove_namespace_def rpc_def fail_with_def
      split: if_splits rpc_result.splits sum.splits)

lemma remove_namespace_from_state_held:
  "remove_namespace_from_state env n i live s = (r, s') \<Longrightarrow>
     omap_lock_held s' = omap_lock_held s"
  by (auto simp: remove_namespace_from_state_def store_def split: if_splits sum.splits)

lemma namespace_delete_safe_held:
  "omap_lock_held s \<Longrightarrow> namespace_delete_safe env request live s = (r, s') \<Longrightarrow>
     omap_lock_held s'"
  by (auto simp: namespace_delete_safe_def with_omap_lock_def
      split: prod.splits sum.splits if_splits
      dest!: find_frame remove_namespace_held remove_namespace_from_state_held
             delete_bdev_effect)

lemma namespace_delete_held:
  assumes run: "namespace_delete env request live s = (r, s')"
  shows "omap_lock_held s' = omap_lock_held s"
proof (cases "omap_lock_held s")
  case True
  let ?t = "log_event RpcLockAcquire s"
  obtain r0 t' where b: "namespace_delete_safe env request live ?t = (r0, t')"
    by (cases "namespace_delete_safe env request live ?t")
  have "omap_lock_held ?t" using True by (simp add: log_event_def)
  from namespace_delete_safe_held [OF this b] have "omap_lock_held t'" .
  with run True b show ?thesis
    by (auto simp: namespace_delete_def execute_grpc_function_def
        execute_omap_locking_function_def grpc_function_with_lock_def with_omap_lock_def
        with_rpc_lock_def log_event_def)
next
  case False
  with run show ?thesis
    by (auto simp: namespace_delete_def execute_grpc_function_def
        execute_omap_locking_function_def with_omap_lock_def split: prod.splits)
qed

lemma delete_namespaces_held:
  "delete_namespaces env n live xs s = (r, s') \<Longrightarrow> omap_lock_held s' = omap_lock_held s"
proof (induction xs arbitrary: s)
  case Nil
  then show ?case by simp
next
  case (Cons i xs)
  then show ?case
    by (auto split: sum.splits prod.splits dest!: namespace_delete_held)
qed

lemma delete_namespaces_any_status:
  assumes "as_int i = Inr k"
    and "namespace_delete env \<lparr>subsystem_nqn = n, nsid = k, uuid = []\<rparr> live s = (Inr ret, s1)"
  shows "delete_namespaces env n live (i # rest) s = delete_namespaces env n live rest s1"
  using assms by simp

lemma delete_subsystem_safe_trace:
  assumes "\<not> omap_lock_held s"
  shows "trace (snd (execute_grpc_function (delete_subsystem_safe env request live) s))
           = trace s @ [OmapLockAcquire, RpcLockAcquire,
                        Rpc (nvmf_delete_subsystem (subsystem_nqn request)),
                        RpcLockRelease, OmapLockRelease]"
  using assms
  by (simp add: lock_defs delete_subsystem_safe_def rpc_def remove_subsystem_from_state_def
      store_def fail_with_def case_prod_beta
      split: rpc_result.splits sum.splits)

lemma forced_delete_proceeds:
  assumes nd: "\<not> is_discovery_nqn env (subsystem_nqn request)"
    and force: "force request"
    and idle: "\<not> omap_lock_held s"
    and chain: "delete_namespaces env (subsystem_nqn request) True
                  (get_subsystem_namespaces env (subsystem_nqn request) s) s = (Inr u, s1)"
  shows "delete_subsystem env request True s
           = execute_grpc_function (delete_subsystem_safe env request True) s1
       \<and> trace (snd (delete_subsystem env request True s))
           = trace s1 @ [OmapLockAcquire, RpcLockAcquire,
                         Rpc (nvmf_delete_subsystem (subsystem_nqn request)),
                         RpcLockRelease, OmapLockRelease]"
proof -
  from delete_namespaces_held [OF chain] idle have i1: "\<not> omap_lock_held s1" by simp
  have d: "delete_subsystem env request True s
           = execute_grpc_function (delete_subsystem_safe env request True) s1"
    using nd force chain by (simp add: delete_subsystem_def)
  show ?thesis unfolding d using delete_subsystem_safe_trace [OF i1] by simp
qed

lemma forced_delete_continues_after_status:
  "fst (delete_subsystem detach_refused forced_delete True (started sample_record))
     = Inr (req_status 0)
   \<and> engine_calls (snd (delete_subsystem detach_refused forced_delete True
                          (started sample_record)))
       = [Rpc (nvmf_get_subsystems ''nqn.a''),
          Rpc (nvmf_subsystem_remove_ns ''nqn.a'' (JInt 1)),
          Rpc (nvmf_delete_subsystem ''nqn.a'')]
   \<and> absent (snd (delete_subsystem detach_refused forced_delete True
                       (started sample_record)))
         (subsystem_key ''nqn.a'')"
  by (simp add: delete_defs detach_refused_def)

text \<open>
  Claim C5 fails on a namespace deletion that times out. A forced, live
  \<^verbatim>\<open>delete_subsystem\<close> of \<open>nqn.a\<close>, whose namespace 1 is in the record, where the engine's
  detachment of the namespace raises a \<^verbatim>\<open>JSONRPCException\<close> without a structured error:
  \<^verbatim>\<open>UnboundLocalError\<close> leaves the loop over the namespaces, the engine is never asked to
  delete the subsystem and the subsystem stays in the record.
\<close>

theorem forced_delete_stops_on_timeout:
  "fst (delete_subsystem detach_timeout forced_delete True (started sample_record))
     = Inl UnboundLocalError
   \<and> engine_calls (snd (delete_subsystem detach_timeout forced_delete True
                          (started sample_record)))
       = [Rpc (nvmf_get_subsystems ''nqn.a''),
          Rpc (nvmf_subsystem_remove_ns ''nqn.a'' (JInt 1))]
   \<and> \<not> absent (snd (delete_subsystem detach_timeout forced_delete True
                       (started sample_record)))
         (subsystem_key ''nqn.a'')"
  by (simp add: delete_defs detach_timeout_def)

end
